theory Spec2Isabelle
  imports Main
begin

section \<open>Text formatting\<close>

text \<open>
  The program builds every string with f-strings: \<open>{x:02d}\<close> for the clock fields,
  \<open>{i+1}\<close> and \<open>{num_commits}\<close> for plain integers, and \<open>{commit_date}\<close>, which is
  \<open>str\<close> of a \<open>datetime.date\<close>, that is \<open>%04d-%02d-%02d\<close> of year, month and day.
\<close>

definition digit_char :: "nat \<Rightarrow> char" where
  "digit_char n = char_of (48 + n)"

fun str_nat :: "nat \<Rightarrow> string" where
  "str_nat n = (if n < 10 then [digit_char n] else str_nat (n div 10) @ [digit_char (n mod 10)])"

declare str_nat.simps [simp del]

text \<open>\<open>str(x)\<close> of a Python integer.\<close>

definition str_int :: "int \<Rightarrow> string" where
  "str_int x = (if x < 0 then CHR ''-'' # str_nat (nat (- x)) else str_nat (nat x))"

text \<open>\<open>s.zfill(w)\<close> for a string of digits: zeros on the left up to width \<open>w\<close>.\<close>

definition zfill :: "nat \<Rightarrow> string \<Rightarrow> string" where
  "zfill w s = replicate (w - length s) CHR ''0'' @ s"

text \<open>
  \<open>f"{x:0wd}"\<close>: the sign, when there is one, counts towards the width and the zeros go
  between the sign and the digits.
\<close>

definition fmt_d :: "nat \<Rightarrow> int \<Rightarrow> string" where
  "fmt_d w x = (if x < 0 then CHR ''-'' # zfill (w - 1) (str_nat (nat (- x)))
                else zfill w (str_nat (nat x)))"

section \<open>Calendar dates\<close>

text \<open>
  \<open>datetime.date\<close> is a triple of year, month and day in the proleptic Gregorian
  calendar, with years 1 to 9999. The program uses four of its operations: \<open>str\<close>, the
  comparison \<open>\<le>\<close>, adding \<open>timedelta(days=1)\<close>, and (in the description of the loop)
  the number of days between two dates, which the library computes from ordinals.
\<close>

record date =
  year :: nat
  month :: nat
  day :: nat

definition MINYEAR :: nat where "MINYEAR = 1"
definition MAXYEAR :: nat where "MAXYEAR = 9999"

definition is_leap :: "nat \<Rightarrow> bool" where
  "is_leap y = (y mod 4 = 0 \<and> (y mod 100 \<noteq> 0 \<or> y mod 400 = 0))"

definition days_in_month :: "nat \<Rightarrow> nat \<Rightarrow> nat" where
  "days_in_month y m =
     (if m = 2 then (if is_leap y then 29 else 28)
      else if m = 4 \<or> m = 6 \<or> m = 9 \<or> m = 11 then 30
      else if 1 \<le> m \<and> m \<le> 12 then 31
      else 0)"

text \<open>The check the constructor \<open>date(y, m, d)\<close> makes; every date object passes it.\<close>

definition valid_date :: "date \<Rightarrow> bool" where
  "valid_date d = (MINYEAR \<le> year d \<and> year d \<le> MAXYEAR \<and> 1 \<le> month d \<and> month d \<le> 12
                   \<and> 1 \<le> day d \<and> day d \<le> days_in_month (year d) (month d))"

definition mk_date :: "nat \<Rightarrow> nat \<Rightarrow> nat \<Rightarrow> date" where
  "mk_date y m d = \<lparr>year = y, month = m, day = d\<rparr>"

text \<open>\<open>str(d)\<close>, the ISO form.\<close>

definition date_str :: "date \<Rightarrow> string" where
  "date_str d = zfill 4 (str_nat (year d)) @ ''-'' @ zfill 2 (str_nat (month d))
                @ ''-'' @ zfill 2 (str_nat (day d))"

text \<open>\<open>d1 <= d2\<close> compares the triples lexicographically.\<close>

definition date_le :: "date \<Rightarrow> date \<Rightarrow> bool" where
  "date_le a b = (year a < year b \<or> (year a = year b \<and>
                   (month a < month b \<or> (month a = month b \<and> day a \<le> day b))))"


fun days_before_month :: "nat \<Rightarrow> nat \<Rightarrow> nat" where
  "days_before_month y 0 = 0"
| "days_before_month y (Suc m) = (if m = 0 then 0 else days_before_month y m + days_in_month y m)"



datatype exn = SystemExit int | OverflowError | ValueError

text \<open>
  \<open>d + timedelta(days=1)\<close>: the next calendar day, and \<open>OverflowError\<close> when that
  would leave the range of years, which happens at 9999-12-31 only.
\<close>

definition date_add_day :: "date \<Rightarrow> exn + date" where
  "date_add_day d =
     (if day d < days_in_month (year d) (month d) then Inr (d\<lparr>day := day d + 1\<rparr>)
      else if month d < 12 then Inr (d\<lparr>month := month d + 1, day := 1\<rparr>)
      else if year d < MAXYEAR then Inr \<lparr>year = year d + 1, month = 1, day = 1\<rparr>
      else Inl OverflowError)"

section \<open>The world outside the program\<close>

text \<open>
  Everything the script asks of its surroundings is answered by an oracle, a field of the
  \<open>world\<close> record indexed by \<open>tick\<close>, the number of questions asked so far: the random
  generator, the bytes of \<open>os.urandom\<close>, whether writing \<open>.tmpfile\<close> works, what a
  \<open>git\<close> subprocess does, and whether a path exists. Everything the script does to its
  surroundings is appended to \<open>trace\<close>.

  Dictionaries are objects: \<open>store\<close> maps an address to the dictionary kept there, in
  insertion order. \<open>os.environ\<close> lives at address 0.

  \<open>processed\<close> and \<open>calls\<close> are history variables, not effects: the days for which the
  body of the day loop has begun, each with the count drawn for it, and the arguments
  of every call of \<open>commit\<close>.
\<close>

type_synonym dict = "(string \<times> string) list"

datatype proc_result = Returned int | Not_found

datatype event =
    Print string
  | Write_file string string
  | Run "string list" "dict option" bool bool
  | Sleep nat
  | Remove_file string

record world =
  tick :: nat
  rand_src :: "nat \<Rightarrow> nat"
  byte_src :: "nat \<Rightarrow> nat \<Rightarrow> nat"
  write_result :: "nat \<Rightarrow> string option"
  run_result :: "nat \<Rightarrow> string list \<Rightarrow> proc_result"
  cpe_str :: "string list \<Rightarrow> int \<Rightarrow> string"
  path_exists :: "nat \<Rightarrow> string \<Rightarrow> bool"
  store :: "nat \<Rightarrow> dict option"
  next_addr :: nat
  trace :: "event list"
  processed :: "(date \<times> int) list"
  calls :: "(date \<times> string) list"

definition emit :: "event \<Rightarrow> world \<Rightarrow> world" where
  "emit e w = w\<lparr>trace := trace w @ [e]\<rparr>"

text \<open>
  \<open>random.randint(a, b)\<close>: \<open>ValueError\<close> on an empty range, otherwise the generator's
  next raw output reduced into \<open>[a, b]\<close>.
\<close>

definition randint :: "int \<Rightarrow> int \<Rightarrow> world \<Rightarrow> (exn + int) \<times> world" where
  "randint a b w =
     (if b < a then (Inl ValueError, w)
      else (Inr (a + int (rand_src w (tick w)) mod (b - a + 1)), w\<lparr>tick := tick w + 1\<rparr>))"

definition hex_char :: "nat \<Rightarrow> char" where
  "hex_char n = (if n < 10 then char_of (48 + n) else char_of (87 + n))"

text \<open>\<open>bytes.hex()\<close>: two lower-case digits for each byte.\<close>

definition hex_str :: "nat list \<Rightarrow> string" where
  "hex_str bs = concat (map (\<lambda>b. [hex_char (b div 16 mod 16), hex_char (b mod 16)]) bs)"

definition os_urandom :: "nat \<Rightarrow> world \<Rightarrow> nat list" where
  "os_urandom n w = map (\<lambda>i. byte_src w (tick w) i mod 256) [0..<n]"

text \<open>
  The \<open>with open(".tmpfile", "w")\<close> block, one question to the oracle: it answers
  \<open>None\<close> when the block succeeds, and then the file holds the message, a newline, the
  sixteen hex digits and a newline; it answers \<open>Some e\<close>, the text of the exception, when
  opening or writing raises.
\<close>

definition write_tmpfile :: "string \<Rightarrow> world \<Rightarrow> string option \<times> world" where
  "write_tmpfile msg w =
     (case write_result w (tick w) of
        Some e \<Rightarrow> (Some e, w\<lparr>tick := tick w + 1\<rparr>)
      | None \<Rightarrow> (None, emit (Write_file ''.tmpfile'' (msg @ [CHR 0x0A] @ hex_str (os_urandom 8 w) @ [CHR 0x0A]))
                         (w\<lparr>tick := tick w + 1\<rparr>)))"

definition os_environ :: nat where
  "os_environ = 0"

definition dict_get :: "nat \<Rightarrow> world \<Rightarrow> dict" where
  "dict_get a w = (case store w a of Some d \<Rightarrow> d | None \<Rightarrow> [])"

text \<open>\<open>d.copy()\<close>: a new object with the same items.\<close>

definition dict_copy :: "nat \<Rightarrow> world \<Rightarrow> nat \<times> world" where
  "dict_copy a w =
     (next_addr w, w\<lparr>store := (store w)(next_addr w := Some (dict_get a w)), next_addr := next_addr w + 1\<rparr>)"

text \<open>\<open>d[k] = v\<close>: replaces the value of an existing key in place, appends a new key.\<close>

fun alist_set :: "string \<Rightarrow> string \<Rightarrow> dict \<Rightarrow> dict" where
  "alist_set k v [] = [(k, v)]"
| "alist_set k v ((k', v') # kvs) = (if k' = k then (k, v) # kvs else (k', v') # alist_set k v kvs)"

definition dict_setitem :: "nat \<Rightarrow> string \<Rightarrow> string \<Rightarrow> world \<Rightarrow> world" where
  "dict_setitem a k v w = w\<lparr>store := (store w)(a := Some (alist_set k v (dict_get a w)))\<rparr>"

text \<open>
  \<open>subprocess.run(argv, env=..., stdout=..., stderr=...)\<close> before \<open>check=True\<close> is
  applied: the call is recorded with the environment it was given (\<open>None\<close> when the child
  inherits the process's own) and with which of its two output streams go to
  \<open>DEVNULL\<close>; the oracle says what status the tool returned, or that no executable was
  found.
\<close>

definition subprocess_run :: "string list \<Rightarrow> nat option \<Rightarrow> bool \<Rightarrow> bool \<Rightarrow> world \<Rightarrow> proc_result \<times> world" where
  "subprocess_run argv env out_null err_null w =
     (run_result w (tick w) argv,
      emit (Run argv (map_option (\<lambda>a. dict_get a w) env) out_null err_null) (w\<lparr>tick := tick w + 1\<rparr>))"

definition os_path_exists :: "string \<Rightarrow> world \<Rightarrow> bool \<times> world" where
  "os_path_exists p w = (path_exists w (tick w) p, w\<lparr>tick := tick w + 1\<rparr>)"

section \<open>The commit operation\<close>

definition lock_path :: string where
  "lock_path = ''.git/index.lock''"

text \<open>The handler of \<open>subprocess.CalledProcessError\<close>.\<close>

definition on_called_process_error :: "date \<Rightarrow> string list \<Rightarrow> int \<Rightarrow> world \<Rightarrow> (exn + unit) \<times> world" where
  "on_called_process_error commit_date argv rc w =
     (let w = emit (Print (''Git command failed for date '' @ date_str commit_date @ '': '' @ cpe_str w argv rc)) w in
      case os_path_exists lock_path w of
        (True, w) \<Rightarrow>
          (Inr (), emit (Print ''Removed .git/index.lock. Attempting to proceed...'')
                     (emit (Remove_file lock_path) w))
      | (False, w) \<Rightarrow> (Inr (), w))"

text \<open>The handler of \<open>FileNotFoundError\<close>.\<close>

definition on_file_not_found :: "world \<Rightarrow> (exn + unit) \<times> world" where
  "on_file_not_found w =
     (Inl (SystemExit 1),
      emit (Print ''CRITICAL ERROR: 'git' executable not found. Ensure Git is installed and in your PATH.'') w)"

definition git_add_argv :: "string list" where
  "git_add_argv = [''git'', ''add'', ''.tmpfile'']"

definition git_commit_argv :: "string \<Rightarrow> string list" where
  "git_commit_argv msg = [''git'', ''commit'', ''-m'', msg]"

definition commit :: "date \<Rightarrow> string \<Rightarrow> world \<Rightarrow> (exn + unit) \<times> world" where
  "commit commit_date msg w =
     (let w = w\<lparr>calls := calls w @ [(commit_date, msg)]\<rparr> in
      (case randint 9 17 w of (Inl e, w) \<Rightarrow> (Inl e, w) | (Inr hh, w) \<Rightarrow>
      (case randint 0 59 w of (Inl e, w) \<Rightarrow> (Inl e, w) | (Inr mm, w) \<Rightarrow>
      (case randint 0 59 w of (Inl e, w) \<Rightarrow> (Inl e, w) | (Inr ss, w) \<Rightarrow>
      (let time_str = fmt_d 2 hh @ '':'' @ fmt_d 2 mm @ '':'' @ fmt_d 2 ss;
           t = date_str commit_date @ '' '' @ time_str
       in
      (case write_tmpfile msg w of
        (Some e, w) \<Rightarrow> (Inr (), emit (Print (''Error writing to .tmpfile: '' @ e)) w)
      | (None, w) \<Rightarrow>
      (case dict_copy os_environ w of (env, w) \<Rightarrow>
      (let w = dict_setitem env ''GIT_COMMITTER_DATE'' t w;
           w = dict_setitem env ''GIT_AUTHOR_DATE'' t w
       in
      (case subprocess_run git_add_argv None True True w of
        (Not_found, w) \<Rightarrow> on_file_not_found w
      | (Returned rc, w) \<Rightarrow>
          (if rc \<noteq> 0 then on_called_process_error commit_date git_add_argv rc w
           else
      (case subprocess_run (git_commit_argv msg) (Some env) True True w of
        (Not_found, w) \<Rightarrow> on_file_not_found w
      | (Returned rc, w) \<Rightarrow>
          (if rc \<noteq> 0 then on_called_process_error commit_date (git_commit_argv msg) rc w
           else (Inr (), emit (Sleep 10) w)))))))))))))"

section \<open>The day loop\<close>

record config =
  START_DATE :: date
  END_DATE :: date
  MIN_COMMITS_PER_DAY :: int
  MAX_COMMITS_PER_DAY :: int

text \<open>The constants of the script as it stands.\<close>

definition script_config :: config where
  "script_config = \<lparr>START_DATE = mk_date 2023 5 12, END_DATE = mk_date 2023 8 9,
                     MIN_COMMITS_PER_DAY = 0, MAX_COMMITS_PER_DAY = 5\<rparr>"

definition commit_msg :: "nat \<Rightarrow> int \<Rightarrow> date \<Rightarrow> string" where
  "commit_msg i num_commits current_date =
     ''Simulated activity commit '' @ str_int (int i + 1) @ ''/'' @ str_int num_commits
     @ '' on '' @ date_str current_date"

text \<open>
  \<open>for i in range(num_commits)\<close>, over the values of \<open>i\<close> still to come. An exception
  leaving \<open>commit\<close> leaves the loop.
\<close>

fun commit_loop :: "date \<Rightarrow> int \<Rightarrow> nat list \<Rightarrow> world \<Rightarrow> (exn + unit) \<times> world" where
  "commit_loop current_date num_commits [] w = (Inr (), w)"
| "commit_loop current_date num_commits (i # rest) w =
     (case commit current_date (commit_msg i num_commits current_date) w of
        (Inl e, w) \<Rightarrow> (Inl e, w)
      | (Inr u, w) \<Rightarrow> commit_loop current_date num_commits rest w)"

text \<open>\<open>range(n)\<close> is empty for \<open>n \<le> 0\<close>.\<close>

definition py_range :: "int \<Rightarrow> nat list" where
  "py_range n = [0..<nat n]"

text \<open>The body of the \<open>while\<close> loop, up to the advance of the cursor.\<close>

definition day_body :: "config \<Rightarrow> date \<Rightarrow> world \<Rightarrow> (exn + unit) \<times> world" where
  "day_body cfg current_date w =
     (case randint (MIN_COMMITS_PER_DAY cfg) (MAX_COMMITS_PER_DAY cfg) w of
        (Inl e, w) \<Rightarrow> (Inl e, w)
      | (Inr num_commits, w) \<Rightarrow>
          let w = w\<lparr>processed := processed w @ [(current_date, num_commits)]\<rparr>;
              w = (if num_commits > 0
                   then emit (Print (''--> '' @ date_str current_date @ '': Generating ''
                                      @ str_int num_commits @ '' commits...'')) w
                   else w)
          in commit_loop current_date num_commits (py_range num_commits) w)"

function day_loop :: "config \<Rightarrow> date \<Rightarrow> date \<Rightarrow> world \<Rightarrow> (exn + unit) \<times> world" where
  "day_loop cfg current_date end_date w =
     (if date_le current_date end_date then
        (case day_body cfg current_date w of
           (Inl e, w) \<Rightarrow> (Inl e, w)
         | (Inr u, w) \<Rightarrow>
             (case date_add_day current_date of
                Inl e \<Rightarrow> (Inl e, w)
              | Inr next_date \<Rightarrow> day_loop cfg next_date end_date w))
      else (Inr (), w))"
  by pat_completeness auto
termination
proof (relation "measures [\<lambda>(cfg, d, e, w). MAXYEAR - year d, \<lambda>(cfg, d, e, w). 12 - month d,
                            \<lambda>(cfg, d, e, w). 31 - day d]", goal_cases)
  case 1
  show ?case by simp
next
  case (2 cfg current_date end_date w x u w' next_date)
  have dim: "days_in_month (year current_date) (month current_date) \<le> 31"
    by (simp add: days_in_month_def)
  from 2(4) dim show ?case
    by (auto simp: date_add_day_def MAXYEAR_def split: if_splits)
qed

declare day_loop.simps [simp del]

definition generate_commits :: "config \<Rightarrow> date \<Rightarrow> date \<Rightarrow> world \<Rightarrow> (exn + unit) \<times> world" where
  "generate_commits cfg start_date end_date w =
     (let w = emit (Print (''Starting commit generation from '' @ date_str start_date @ '' to ''
                           @ date_str end_date @ ''...'')) w in
      case day_loop cfg start_date end_date w of
        (Inl e, w) \<Rightarrow> (Inl e, w)
      | (Inr u, w) \<Rightarrow>
          (Inr (), emit (Print ''Generation complete. Don't forget to push your changes to the remote repository!'') w))"

section \<open>The entry point\<close>

definition git_init_argv :: "string list" where
  "git_init_argv = [''git'', ''init'']"

definition main :: "config \<Rightarrow> world \<Rightarrow> (exn + unit) \<times> world" where
  "main cfg w =
     (case os_path_exists ''.git'' w of
        (True, w) \<Rightarrow> generate_commits cfg (START_DATE cfg) (END_DATE cfg) w
      | (False, w) \<Rightarrow>
          (let w = emit (Print ''WARNING: Current folder is not a Git repository. Initializing...'') w in
           (case subprocess_run git_init_argv None True False w of
              (Not_found, w) \<Rightarrow>
                (Inl (SystemExit 1),
                 emit (Print ''CRITICAL ERROR: 'git' executable not found during initialization. Ensure Git is in your PATH.'') w)
            | (Returned rc, w) \<Rightarrow>
                (if rc \<noteq> 0
                 then (Inl (SystemExit 1), emit (Print ''CRITICAL ERROR: Failed to initialize Git repository.'') w)
                 else generate_commits cfg (START_DATE cfg) (END_DATE cfg)
                        (emit (Print ''Git repository successfully initialized.'') w)))))"

text \<open>
  The status the process ends with: 0 after a normal return, the argument of
  \<open>sys.exit\<close>, and 1 when any other exception reaches the top level.
\<close>

definition exit_status :: "exn + unit \<Rightarrow> int" where
  "exit_status r = (case r of Inr u \<Rightarrow> 0 | Inl (SystemExit n) \<Rightarrow> n | Inl e \<Rightarrow> 1)"

section \<open>Observing a run\<close>

text \<open>What a call added to the trace: the events after those already there.\<close>

definition new_events :: "world \<Rightarrow> world \<Rightarrow> event list" where
  "new_events w w' = drop (length (trace w)) (trace w')"

definition is_digit :: "char \<Rightarrow> bool" where
  "is_digit c = (48 \<le> (of_char c :: nat) \<and> (of_char c :: nat) \<le> 57)"

text \<open>
  A string has a shape when it is as long as the shape, has a decimal digit wherever the
  shape has the letter \<open>d\<close>, and the shape's own character everywhere else.
\<close>

definition has_shape :: "string \<Rightarrow> string \<Rightarrow> bool" where
  "has_shape shape s = list_all2 (\<lambda>p c. if p = CHR ''d'' then is_digit c else c = p) shape s"

definition timestamp_shape :: string where
  "timestamp_shape = ''dddd-dd-dd dd:dd:dd''"

text \<open>The number a string of decimal digits denotes.\<close>

definition read_nat :: "string \<Rightarrow> nat" where
  "read_nat s = foldl (\<lambda>a c. 10 * a + (of_char c - 48)) 0 s"

text \<open>The fields of a timestamp, read back from their columns.\<close>

definition ts_date :: "string \<Rightarrow> date" where
  "ts_date t = \<lparr>year = read_nat (take 4 t), month = read_nat (take 2 (drop 5 t)),
                day = read_nat (take 2 (drop 8 t))\<rparr>"

definition ts_hour :: "string \<Rightarrow> nat" where
  "ts_hour t = read_nat (take 2 (drop 11 t))"

definition ts_minute :: "string \<Rightarrow> nat" where
  "ts_minute t = read_nat (take 2 (drop 14 t))"

definition ts_second :: "string \<Rightarrow> nat" where
  "ts_second t = read_nat (take 2 (drop 17 t))"

text \<open>
  The allocator of dictionaries hands out addresses from \<open>next_addr\<close> upwards, so in any
  state the interpreter can be in, \<open>os.environ\<close> is below it.
\<close>

definition store_ok :: "world \<Rightarrow> bool" where
  "store_ok w = (os_environ < next_addr w)"

section \<open>The course of one call of \<open>commit\<close>\<close>

text \<open>
  A call of \<open>commit\<close> that starts in world \<open>w\<close> asks the oracle in a fixed order: three
  draws for the clock, the write of \<open>.tmpfile\<close>, \<open>git add\<close>, and then either
  \<open>git commit\<close> or, after a failed \<open>git add\<close>, whether the lock exists; after a failed
  \<open>git commit\<close>, whether the lock exists. The answers it gets, by that order:
\<close>

definition drawn_hour :: "world \<Rightarrow> int" where
  "drawn_hour w = 9 + int (rand_src w (tick w)) mod 9"

definition drawn_minute :: "world \<Rightarrow> int" where
  "drawn_minute w = int (rand_src w (tick w + 1)) mod 60"

definition drawn_second :: "world \<Rightarrow> int" where
  "drawn_second w = int (rand_src w (tick w + 2)) mod 60"

definition write_answer :: "world \<Rightarrow> string option" where
  "write_answer w = write_result w (tick w + 3)"

definition add_answer :: "world \<Rightarrow> proc_result" where
  "add_answer w = run_result w (tick w + 4) git_add_argv"

definition lock_after_add :: "world \<Rightarrow> bool" where
  "lock_after_add w = path_exists w (tick w + 5) lock_path"

definition commit_answer :: "string \<Rightarrow> world \<Rightarrow> proc_result" where
  "commit_answer msg w = run_result w (tick w + 5) (git_commit_argv msg)"

definition lock_after_commit :: "world \<Rightarrow> bool" where
  "lock_after_commit w = path_exists w (tick w + 6) lock_path"

text \<open>What the call makes of them: the timestamp, the environment of the commit
  subprocess, and the content of the scratch file.\<close>

definition timestamp_of :: "date \<Rightarrow> world \<Rightarrow> string" where
  "timestamp_of d w = date_str d @ '' '' @ fmt_d 2 (drawn_hour w) @ '':'' @ fmt_d 2 (drawn_minute w)
                      @ '':'' @ fmt_d 2 (drawn_second w)"

definition env_of :: "date \<Rightarrow> world \<Rightarrow> dict" where
  "env_of d w = alist_set ''GIT_AUTHOR_DATE'' (timestamp_of d w)
                  (alist_set ''GIT_COMMITTER_DATE'' (timestamp_of d w) (dict_get os_environ w))"

definition payload_of :: "string \<Rightarrow> world \<Rightarrow> string" where
  "payload_of msg w = msg @ [CHR 0x0A] @ hex_str (map (\<lambda>i. byte_src w (tick w + 3) i mod 256) [0..<8])
                      @ [CHR 0x0A]"

text \<open>
  The world a call leaves behind, given how many questions it asked, what it added to the
  trace and whether it got as far as copying the environment.
\<close>

definition after_commit :: "date \<Rightarrow> string \<Rightarrow> nat \<Rightarrow> event list \<Rightarrow> bool \<Rightarrow> world \<Rightarrow> world" where
  "after_commit d msg k evs copied w =
     w\<lparr>tick := tick w + k,
       store := (if copied then (store w)(next_addr w := Some (env_of d w)) else store w),
       next_addr := (if copied then next_addr w + 1 else next_addr w),
       trace := trace w @ evs,
       calls := calls w @ [(d, msg)]\<rparr>"

definition failure_report :: "date \<Rightarrow> string list \<Rightarrow> int \<Rightarrow> world \<Rightarrow> event" where
  "failure_report d argv rc w =
     Print (''Git command failed for date '' @ date_str d @ '': '' @ cpe_str w argv rc)"

definition lock_cleanup :: "bool \<Rightarrow> event list" where
  "lock_cleanup present =
     (if present then [Remove_file lock_path, Print ''Removed .git/index.lock. Attempting to proceed...'']
      else [])"

definition tool_missing_report :: event where
  "tool_missing_report =
     Print ''CRITICAL ERROR: 'git' executable not found. Ensure Git is installed and in your PATH.''"

definition run_add :: event where
  "run_add = Run git_add_argv None True True"

definition run_commit :: "date \<Rightarrow> string \<Rightarrow> world \<Rightarrow> event" where
  "run_commit d msg w = Run (git_commit_argv msg) (Some (env_of d w)) True True"

definition write_scratch :: "string \<Rightarrow> world \<Rightarrow> event" where
  "write_scratch msg w = Write_file ''.tmpfile'' (payload_of msg w)"

section \<open>Observing the loops\<close>

definition is_run :: "event \<Rightarrow> bool" where
  "is_run e = (case e of Run argv env out_null err_null \<Rightarrow> True | _ \<Rightarrow> False)"

text \<open>The subprocess invocations among some events.\<close>

definition tool_calls :: "event list \<Rightarrow> event list" where
  "tool_calls evs = filter is_run evs"

text \<open>The days a run has begun to process, and the calls of \<open>commit\<close> it has made.\<close>

definition days_done :: "world \<Rightarrow> world \<Rightarrow> date list" where
  "days_done w w' = map fst (drop (length (processed w)) (processed w'))"

definition new_calls :: "world \<Rightarrow> world \<Rightarrow> (date \<times> string) list" where
  "new_calls w w' = drop (length (calls w)) (calls w')"

text \<open>The count the body of the day loop draws when it starts in world \<open>w\<close>.\<close>

definition drawn_count :: "config \<Rightarrow> world \<Rightarrow> int" where
  "drawn_count cfg w = MIN_COMMITS_PER_DAY cfg
     + int (rand_src w (tick w)) mod (MAX_COMMITS_PER_DAY cfg - MIN_COMMITS_PER_DAY cfg + 1)"


text \<open>
  A run from \<open>w\<close> to \<open>w'\<close> with result \<open>r\<close> stops at its first subprocess: either it
  ended with \<open>sys.exit(1)\<close>, and then the last two things it did were to start a
  subprocess, the only one of the run, and to print one line; or it did not end that
  way and started no subprocess at all.
\<close>

definition stops_at_first_call :: "world \<Rightarrow> exn + unit \<Rightarrow> world \<Rightarrow> bool" where
  "stops_at_first_call w r w' =
     (if r = Inl (SystemExit 1)
      then (case rev (new_events w w') of
              Print s # x # before \<Rightarrow> is_run x \<and> tool_calls before = []
            | _ \<Rightarrow> False)
      else tool_calls (new_events w w') = [])"

text \<open>No \<open>git\<close> executable can be found, whenever and however it is asked for.\<close>

definition tool_missing :: "world \<Rightarrow> bool" where
  "tool_missing w = (\<forall>t argv. run_result w t argv = Not_found)"

section \<open>Some worlds\<close>

text \<open>
  A world in which everything works: the repository exists, no lock is left behind,
  every write and every \<open>git\<close> command succeeds.
\<close>

definition calm_world :: world where
  "calm_world =
     \<lparr>tick = 0, rand_src = (\<lambda>t. 7 * t + 3), byte_src = (\<lambda>t i. t + 17 * i),
      write_result = (\<lambda>t. None), run_result = (\<lambda>t argv. Returned 0),
      cpe_str = (\<lambda>argv rc. ''status '' @ str_int rc),
      path_exists = (\<lambda>t p. p = ''.git''),
      store = (\<lambda>a. if a = 0 then Some [(''PATH'', ''/usr/bin'')] else None), next_addr = 1,
      trace = [], processed = [], calls = []\<rparr>"


text \<open>The same, except that \<open>git commit\<close> exits with status 1 and leaves its lock behind.\<close>

definition commit_fails_world :: world where
  "commit_fails_world =
     calm_world\<lparr>run_result := (\<lambda>t argv. if argv = git_add_argv then Returned 0 else Returned 1),
                path_exists := (\<lambda>t p. True)\<rparr>"

text \<open>The same as the calm world, except that \<open>.tmpfile\<close> cannot be written.\<close>

definition write_fails_world :: world where
  "write_fails_world = calm_world\<lparr>write_result := (\<lambda>t. Some ''Permission denied'')\<rparr>"

text \<open>A world without \<open>git\<close>, with a repository directory; and one without either.\<close>

definition no_git_world :: world where
  "no_git_world = calm_world\<lparr>run_result := (\<lambda>t argv. Not_found)\<rparr>"

definition bare_world :: world where
  "bare_world = no_git_world\<lparr>path_exists := (\<lambda>t p. False)\<rparr>"

text \<open>Small configurations: one day with exactly three commits; three days; a day with none.\<close>

definition one_day_config :: config where
  "one_day_config = \<lparr>START_DATE = mk_date 2023 5 12, END_DATE = mk_date 2023 5 12,
                      MIN_COMMITS_PER_DAY = 3, MAX_COMMITS_PER_DAY = 3\<rparr>"



section \<open>Facts about the formatting\<close>

lemma of_char_digit_char: "k < 10 \<Longrightarrow> (of_char (digit_char k) :: nat) = 48 + k"
  by (simp add: digit_char_def)

lemma is_digit_digit_char: "k < 10 \<Longrightarrow> is_digit (digit_char k)"
  by (simp add: is_digit_def of_char_digit_char)

lemma dc0: "CHR ''0'' = digit_char 0"
  by code_simp

lemma replicate2: "replicate 2 x = [x, x]"
  by (simp add: numeral_2_eq_2)

lemma replicate3: "replicate 3 x = [x, x, x]"
  by (simp add: numeral_3_eq_3)

lemma str_nat_lt10: "n < 10 \<Longrightarrow> str_nat n = [digit_char n]"
  by (subst str_nat.simps) simp

lemma str_nat_ge10: "10 \<le> n \<Longrightarrow> str_nat n = str_nat (n div 10) @ [digit_char (n mod 10)]"
  by (subst str_nat.simps) simp

lemma zfill2: "n < 100 \<Longrightarrow> zfill 2 (str_nat n) = [digit_char (n div 10), digit_char (n mod 10)]"
proof (cases "n < 10")
  case True
  then show ?thesis by (simp add: str_nat_lt10 zfill_def dc0 replicate2 replicate3)
next
  case False
  assume "n < 100"
  with False have "n div 10 < 10" by simp
  with False show ?thesis by (simp add: str_nat_ge10 str_nat_lt10 zfill_def)
qed

lemma length_str_nat_pos: "0 < length (str_nat n)"
  by (subst str_nat.simps) simp

lemma zfill4: 
  assumes "n < 10000"
  shows "zfill 4 (str_nat n) = [digit_char (n div 1000), digit_char (n div 100 mod 10),
            digit_char (n div 10 mod 10), digit_char (n mod 10)]"
proof -
  consider "n < 10" | "10 \<le> n" "n < 100" | "100 \<le> n" "n < 1000" | "1000 \<le> n" by linarith
  then show ?thesis
  proof cases
    case 1
    then show ?thesis by (simp add: str_nat_lt10 zfill_def dc0 replicate2 replicate3)
  next
    case 2
    then have "n div 10 < 10" by simp
    with 2 show ?thesis by (simp add: str_nat_ge10 str_nat_lt10 zfill_def dc0 replicate2 replicate3)
  next
    case 3
    then have a: "10 \<le> n div 10" "n div 10 div 10 < 10" by simp_all
    have b: "n div 10 div 10 = n div 100" by (simp add: div_mult2_eq)
    from 3 a show ?thesis by (simp add: str_nat_ge10 str_nat_lt10 zfill_def dc0 replicate2 replicate3 b)
  next
    case 4
    with assms have a: "10 \<le> n div 10" "10 \<le> n div 10 div 10" "n div 10 div 10 div 10 < 10" by simp_all
    have b: "n div 10 div 10 = n div 100" "n div 100 div 10 = n div 1000" by (simp_all add: div_mult2_eq)
    from 4 a have "str_nat n = [digit_char (n div 10 div 10 div 10), digit_char (n div 10 div 10 mod 10),
            digit_char (n div 10 mod 10), digit_char (n mod 10)]" 
      by (simp add: str_nat_ge10 str_nat_lt10)
    then show ?thesis by (simp add: zfill_def b)
  qed
qed

lemma read_nat2: "a < 10 \<Longrightarrow> b < 10 \<Longrightarrow> read_nat [digit_char a, digit_char b] = 10 * a + b"
  by (simp add: read_nat_def of_char_digit_char)

lemma read_nat4: "a < 10 \<Longrightarrow> b < 10 \<Longrightarrow> c < 10 \<Longrightarrow> d < 10 \<Longrightarrow> 
   read_nat [digit_char a, digit_char b, digit_char c, digit_char d] = 1000 * a + 100 * b + 10 * c + d"
  by (simp add: read_nat_def of_char_digit_char)

lemma fmt_d2: "0 \<le> x \<Longrightarrow> x < 100 \<Longrightarrow> fmt_d 2 x = [digit_char (nat x div 10), digit_char (nat x mod 10)]"
  by (simp add: fmt_d_def zfill2)

section \<open>Facts about the calendar\<close>

lemma days_in_month_le31: "days_in_month y m \<le> 31"
  by (simp add: days_in_month_def)

lemma days_before_month_step: "1 \<le> m \<Longrightarrow> days_before_month y (m + 1) = days_before_month y m + days_in_month y m"
  by simp















lemma date_le_refl: "date_le d d"
  by (simp add: date_le_def)

lemma date_le_total: "(\<not> date_le a b) = (date_le b a \<and> a \<noteq> b)"
  by (cases a; cases b) (auto simp: date_le_def)



section \<open>The six courses of \<open>commit\<close>\<close>

lemmas prim_defs = emit_def randint_def write_tmpfile_def dict_copy_def dict_setitem_def
  subprocess_run_def os_path_exists_def on_called_process_error_def on_file_not_found_def
  os_urandom_def dict_get_def

lemmas course_defs = drawn_hour_def drawn_minute_def drawn_second_def write_answer_def
  add_answer_def lock_after_add_def commit_answer_def lock_after_commit_def timestamp_of_def
  env_of_def payload_of_def after_commit_def failure_report_def lock_cleanup_def
  tool_missing_report_def run_add_def run_commit_def write_scratch_def

lemma offsets: "t + 2 = Suc (Suc t)" "t + 3 = Suc (Suc (Suc t))" "t + 4 = Suc (Suc (Suc (Suc t)))"
  "t + 5 = Suc (Suc (Suc (Suc (Suc t))))" "t + 6 = Suc (Suc (Suc (Suc (Suc (Suc t)))))"
  "t + 7 = Suc (Suc (Suc (Suc (Suc (Suc (Suc t))))))"
  by simp_all

lemma commit_write_fails:
  assumes "write_answer w = Some e"
  shows "commit d msg w = (Inr (), after_commit d msg 4 [Print (''Error writing to .tmpfile: '' @ e)] False w)"
  using assms by (simp add: commit_def prim_defs course_defs Let_def offsets)

lemma commit_add_missing:
  assumes "write_answer w = None" "add_answer w = Not_found"
  shows "commit d msg w = (Inl (SystemExit 1),
           after_commit d msg 5 [write_scratch msg w, run_add, tool_missing_report] True w)"
  using assms by (simp add: commit_def prim_defs course_defs Let_def offsets)

lemma commit_add_fails:
  assumes "write_answer w = None" "add_answer w = Returned rc" "rc \<noteq> 0"
  shows "commit d msg w = (Inr (),
           after_commit d msg 6 ([write_scratch msg w, run_add, failure_report d git_add_argv rc w]
                                  @ lock_cleanup (lock_after_add w)) True w)"
  using assms by (simp add: commit_def prim_defs course_defs Let_def offsets)

lemma commit_commit_missing:
  assumes "write_answer w = None" "add_answer w = Returned 0" "commit_answer msg w = Not_found"
  shows "commit d msg w = (Inl (SystemExit 1),
           after_commit d msg 6 [write_scratch msg w, run_add, run_commit d msg w, tool_missing_report] True w)"
  using assms by (simp add: commit_def prim_defs course_defs Let_def offsets)

lemma commit_commit_fails:
  assumes "write_answer w = None" "add_answer w = Returned 0" "commit_answer msg w = Returned rc" "rc \<noteq> 0"
  shows "commit d msg w = (Inr (),
           after_commit d msg 7 ([write_scratch msg w, run_add, run_commit d msg w,
                                   failure_report d (git_commit_argv msg) rc w]
                                  @ lock_cleanup (lock_after_commit w)) True w)"
  using assms by (simp add: commit_def prim_defs course_defs Let_def offsets)

lemma commit_succeeds:
  assumes "write_answer w = None" "add_answer w = Returned 0" "commit_answer msg w = Returned 0"
  shows "commit d msg w = (Inr (),
           after_commit d msg 6 [write_scratch msg w, run_add, run_commit d msg w, Sleep 10] True w)"
  using assms by (simp add: commit_def prim_defs course_defs Let_def offsets)

lemma after_commit_simps:
  "tick (after_commit d msg k evs c w) = tick w + k"
  "rand_src (after_commit d msg k evs c w) = rand_src w"
  "byte_src (after_commit d msg k evs c w) = byte_src w"
  "write_result (after_commit d msg k evs c w) = write_result w"
  "run_result (after_commit d msg k evs c w) = run_result w"
  "cpe_str (after_commit d msg k evs c w) = cpe_str w"
  "path_exists (after_commit d msg k evs c w) = path_exists w"
  "trace (after_commit d msg k evs c w) = trace w @ evs"
  "processed (after_commit d msg k evs c w) = processed w"
  "calls (after_commit d msg k evs c w) = calls w @ [(d, msg)]"
  "next_addr w \<le> next_addr (after_commit d msg k evs c w)"
  "a < next_addr w \<Longrightarrow> store (after_commit d msg k evs c w) a = store w a"
  by (simp_all add: after_commit_def)

lemma new_events_after_commit: "new_events w (after_commit d msg k evs c w) = evs"
  by (simp add: new_events_def after_commit_def)

lemma commit_cases [case_names write_fails add_missing add_fails commit_missing commit_fails succeeds]:
  obtains e where "write_answer w = Some e"
  | "write_answer w = None" "add_answer w = Not_found"
  | rc where "write_answer w = None" "add_answer w = Returned rc" "rc \<noteq> 0"
  | "write_answer w = None" "add_answer w = Returned 0" "commit_answer msg w = Not_found"
  | rc where "write_answer w = None" "add_answer w = Returned 0" "commit_answer msg w = Returned rc" "rc \<noteq> 0"
  | "write_answer w = None" "add_answer w = Returned 0" "commit_answer msg w = Returned 0"
proof (cases "write_answer w")
  case None
  note wr = this
  show ?thesis
  proof (cases "add_answer w")
    case (Returned rc)
    note ad = this
    show ?thesis
    proof (cases "rc = 0")
      case True
      show ?thesis
      proof (cases "commit_answer msg w")
        case (Returned rc')
        with wr ad True that(5,6) show ?thesis by (cases "rc' = 0") auto
      next
        case Not_found
        with wr ad True that(4) show ?thesis by simp
      qed
    next
      case False
      with wr ad that(3) show ?thesis by simp
    qed
  next
    case Not_found
    with wr that(2) show ?thesis by simp
  qed
next
  case (Some e)
  with that(1) show ?thesis by simp
qed

text \<open>Whatever happens, the call leaves a world of the form \<open>after_commit\<close> and ends
  normally or with \<open>SystemExit 1\<close>.\<close>

lemma commit_shape:
  "\<exists>r k evs c. commit d msg w = (r, after_commit d msg k evs c w) \<and> (r = Inr () \<or> r = Inl (SystemExit 1))"
proof (cases rule: commit_cases [where w = w and msg = msg])
  case (write_fails e)
  from commit_write_fails [OF this] show ?thesis by blast
next
  case add_missing
  from commit_add_missing [OF this] show ?thesis by blast
next
  case (add_fails rc)
  from commit_add_fails [OF this] show ?thesis by blast
next
  case commit_missing
  from commit_commit_missing [OF this] show ?thesis by blast
next
  case (commit_fails rc)
  from commit_commit_fails [OF this] show ?thesis by blast
next
  case succeeds
  from commit_succeeds [OF this] show ?thesis by blast
qed

section \<open>The timestamp\<close>

lemma digits4: "1000 * (n div 1000) + 100 * (n div 100 mod 10) + 10 * (n div 10 mod 10) + n mod 10 = (n::nat)"
proof -
  define a where "a = n div 10"
  define b where "b = a div 10"
  define c where "c = b div 10"
  have b: "n div 100 = b" unfolding b_def a_def by (simp add: div_mult2_eq)
  have c: "n div 1000 = c" unfolding c_def b_def a_def by (simp add: div_mult2_eq)
  have 1: "n = 10 * a + n mod 10" unfolding a_def by simp
  have 2: "a = 10 * b + a mod 10" unfolding b_def by simp
  have 3: "b = 10 * c + b mod 10" unfolding c_def by simp
  have "1000 * c + 100 * (b mod 10) + 10 * (a mod 10) + n mod 10 = 10 * (10 * (10 * c + b mod 10) + a mod 10) + n mod 10"
    by simp
  also have "\<dots> = n" using 1 2 3 by simp
  finally show ?thesis unfolding b c a_def [symmetric] .
qed

lemma digits2: "10 * (n div 10) + n mod 10 = (n::nat)"
  by simp

lemma date_str_chars:
  assumes "valid_date d"
  shows "date_str d = [digit_char (year d div 1000), digit_char (year d div 100 mod 10),
                       digit_char (year d div 10 mod 10), digit_char (year d mod 10), CHR ''-'',
                       digit_char (month d div 10), digit_char (month d mod 10), CHR ''-'',
                       digit_char (day d div 10), digit_char (day d mod 10)]"
proof -
  from assms have y: "year d < 10000" and m: "month d < 100"
    by (simp_all add: valid_date_def MAXYEAR_def)
  from assms days_in_month_le31 [of "year d" "month d"] have dd: "day d < 100"
    by (simp add: valid_date_def)
  show ?thesis by (simp add: date_str_def zfill4 [OF y] zfill2 [OF m] zfill2 [OF dd])
qed

lemma drawn_bounds:
  "9 \<le> drawn_hour w" "drawn_hour w \<le> 17" "0 \<le> drawn_minute w" "drawn_minute w \<le> 59"
  "0 \<le> drawn_second w" "drawn_second w \<le> 59"
  by (simp_all add: drawn_hour_def drawn_minute_def drawn_second_def) 

lemma timestamp_chars:
  assumes "valid_date d"
  shows "timestamp_of d w = date_str d @ [CHR '' '',
            digit_char (nat (drawn_hour w) div 10), digit_char (nat (drawn_hour w) mod 10), CHR '':'',
            digit_char (nat (drawn_minute w) div 10), digit_char (nat (drawn_minute w) mod 10), CHR '':'',
            digit_char (nat (drawn_second w) div 10), digit_char (nat (drawn_second w) mod 10)]"
  using drawn_bounds [of w] by (simp add: timestamp_of_def fmt_d2)

lemma timestamp_props:
  assumes "valid_date d"
  shows "has_shape timestamp_shape (timestamp_of d w)"
    and "take 10 (timestamp_of d w) = date_str d"
    and "ts_date (timestamp_of d w) = d"
    and "int (ts_hour (timestamp_of d w)) = drawn_hour w"
    and "int (ts_minute (timestamp_of d w)) = drawn_minute w"
    and "int (ts_second (timestamp_of d w)) = drawn_second w"
proof -
  from assms have y: "year d < 10000" and m: "month d < 100"
    by (simp_all add: valid_date_def MAXYEAR_def)
  from assms days_in_month_le31 [of "year d" "month d"] have dd: "day d < 100"
    by (simp add: valid_date_def)
  have h: "nat (drawn_hour w) < 100" "nat (drawn_minute w) < 100" "nat (drawn_second w) < 100"
    "0 \<le> drawn_hour w"
    using drawn_bounds [of w] by simp_all
  note chars = timestamp_chars [OF assms] date_str_chars [OF assms]
  show "has_shape timestamp_shape (timestamp_of d w)"
    using y m dd h unfolding chars
    by (simp add: has_shape_def timestamp_shape_def is_digit_digit_char)
  show "take 10 (timestamp_of d w) = date_str d"
    unfolding timestamp_chars [OF assms] by (simp add: date_str_chars [OF assms])
  show "ts_date (timestamp_of d w) = d"
    using y m dd unfolding chars
    by (cases d) (simp add: ts_date_def read_nat2 read_nat4 digits4)
  show "int (ts_hour (timestamp_of d w)) = drawn_hour w"
    using h drawn_bounds [of w] unfolding chars by (simp add: ts_hour_def read_nat2)
  show "int (ts_minute (timestamp_of d w)) = drawn_minute w"
    using h drawn_bounds [of w] unfolding chars by (simp add: ts_minute_def read_nat2)
  show "int (ts_second (timestamp_of d w)) = drawn_second w"
    using h drawn_bounds [of w] unfolding chars by (simp add: ts_second_def read_nat2)
qed

lemma map_of_alist_set: "map_of (alist_set k v al) = (map_of al)(k \<mapsto> v)"
  by (induction al) auto

lemma env_of_dates:
  "map_of (env_of d w) ''GIT_AUTHOR_DATE'' = Some (timestamp_of d w)"
  "map_of (env_of d w) ''GIT_COMMITTER_DATE'' = Some (timestamp_of d w)"
  by (simp_all add: env_of_def map_of_alist_set)

section \<open>The worlds, evaluated\<close>

lemma calm_answers:
  "write_answer calm_world = None" "add_answer calm_world = Returned 0"
  "commit_answer msg calm_world = Returned 0" "store_ok calm_world"
  "dict_get os_environ calm_world = [(''PATH'', ''/usr/bin'')]"
  by (simp_all add: write_answer_def add_answer_def commit_answer_def store_ok_def dict_get_def
        os_environ_def calm_world_def)

lemma calm_timestamp: "timestamp_of (mk_date 2023 5 12) calm_world = ''2023-05-12 12:10:17''"
  by code_simp

lemma calm_payload: "payload_of ''m'' calm_world = ''m\<newline>031425364758697a\<newline>''"
  by code_simp

lemma calm_env:
  "env_of (mk_date 2023 5 12) calm_world =
     [(''PATH'', ''/usr/bin''), (''GIT_COMMITTER_DATE'', ''2023-05-12 12:10:17''),
      (''GIT_AUTHOR_DATE'', ''2023-05-12 12:10:17'')]"
  by (simp add: env_of_def calm_timestamp calm_answers)

lemma day_2023_05_12: "valid_date (mk_date 2023 5 12)" "date_str (mk_date 2023 5 12) = ''2023-05-12''"
proof -
  show "valid_date (mk_date 2023 5 12)"
    by (simp add: valid_date_def mk_date_def days_in_month_def MINYEAR_def MAXYEAR_def)
  show "date_str (mk_date 2023 5 12) = ''2023-05-12''" by code_simp
qed




text \<open>The other worlds differ from the calm one in what \<open>git\<close>, the file system or the
  write answer, which the timestamp, the payload and the environment do not depend on.\<close>

lemma course_of_variants:
  "timestamp_of d (w\<lparr>run_result := rr\<rparr>) = timestamp_of d w"
  "timestamp_of d (w\<lparr>path_exists := pe\<rparr>) = timestamp_of d w"
  "timestamp_of d (w\<lparr>write_result := wr\<rparr>) = timestamp_of d w"
  "payload_of m (w\<lparr>run_result := rr\<rparr>) = payload_of m w"
  "payload_of m (w\<lparr>path_exists := pe\<rparr>) = payload_of m w"
  "payload_of m (w\<lparr>write_result := wr\<rparr>) = payload_of m w"
  "env_of d (w\<lparr>run_result := rr\<rparr>) = env_of d w"
  "env_of d (w\<lparr>path_exists := pe\<rparr>) = env_of d w"
  "env_of d (w\<lparr>write_result := wr\<rparr>) = env_of d w"
  by (simp_all add: timestamp_of_def payload_of_def env_of_def drawn_hour_def drawn_minute_def
        drawn_second_def dict_get_def)


lemma commit_fails_answers:
  "write_answer commit_fails_world = None" "add_answer commit_fails_world = Returned 0"
  "commit_answer msg commit_fails_world = Returned 1"
  "lock_after_commit commit_fails_world = True"
  "cpe_str commit_fails_world argv 1 = ''status 1''"
  "payload_of ''m'' commit_fails_world = ''m\<newline>031425364758697a\<newline>''"
  "env_of (mk_date 2023 5 12) commit_fails_world =
     [(''PATH'', ''/usr/bin''), (''GIT_COMMITTER_DATE'', ''2023-05-12 12:10:17''),
      (''GIT_AUTHOR_DATE'', ''2023-05-12 12:10:17'')]"
proof -
  have "str_int 1 = ''1''" by code_simp
  then show "cpe_str commit_fails_world argv 1 = ''status 1''"
    by (simp add: commit_fails_world_def calm_world_def)
  show "write_answer commit_fails_world = None" "add_answer commit_fails_world = Returned 0"
    "commit_answer msg commit_fails_world = Returned 1"
    by (simp_all add: write_answer_def add_answer_def commit_answer_def commit_fails_world_def
          calm_world_def git_add_argv_def git_commit_argv_def)
  show "lock_after_commit commit_fails_world = True"
    by (simp add: lock_after_commit_def commit_fails_world_def)
  show "payload_of ''m'' commit_fails_world = ''m\<newline>031425364758697a\<newline>''"
    by (simp add: commit_fails_world_def course_of_variants calm_payload)
  show "env_of (mk_date 2023 5 12) commit_fails_world =
     [(''PATH'', ''/usr/bin''), (''GIT_COMMITTER_DATE'', ''2023-05-12 12:10:17''),
      (''GIT_AUTHOR_DATE'', ''2023-05-12 12:10:17'')]"
    by (simp add: commit_fails_world_def course_of_variants calm_env)
qed

lemma write_fails_answers: "write_answer write_fails_world = Some ''Permission denied''"
  by (simp add: write_answer_def write_fails_world_def)

lemma no_git_answers:
  "tool_missing no_git_world" "tool_missing bare_world"
  "path_exists no_git_world t ''.git''" "\<not> path_exists bare_world t p"
  "write_answer no_git_world = None"
  by (simp_all add: tool_missing_def write_answer_def no_git_world_def bare_world_def calm_world_def)

section \<open>Properties of the commit operation\<close>

lemma commit_new_events_cases:
  "new_events w (snd (commit d msg w)) \<in>
     {[Print (''Error writing to .tmpfile: '' @ e)] | e. write_answer w = Some e} \<union>
     {[write_scratch msg w, run_add, tool_missing_report]} \<union>
     {[write_scratch msg w, run_add, failure_report d git_add_argv rc w] @ lock_cleanup (lock_after_add w) | rc. True} \<union>
     {[write_scratch msg w, run_add, run_commit d msg w, tool_missing_report]} \<union>
     {[write_scratch msg w, run_add, run_commit d msg w, failure_report d (git_commit_argv msg) rc w]
        @ lock_cleanup (lock_after_commit w) | rc. True} \<union>
     {[write_scratch msg w, run_add, run_commit d msg w, Sleep 10]}"
proof (cases rule: commit_cases [where w = w and msg = msg])
  case (write_fails e)
  from commit_write_fails [OF this] write_fails show ?thesis by (simp add: new_events_after_commit)
next
  case add_missing
  from commit_add_missing [OF this] show ?thesis by (simp add: new_events_after_commit)
next
  case (add_fails rc)
  from commit_add_fails [OF this] show ?thesis by (auto simp add: new_events_after_commit)
next
  case commit_missing
  from commit_commit_missing [OF this] show ?thesis by (simp add: new_events_after_commit)
next
  case (commit_fails rc)
  from commit_commit_fails [OF this] show ?thesis by (auto simp add: new_events_after_commit)
next
  case succeeds
  from commit_succeeds [OF this] show ?thesis by (simp add: new_events_after_commit)
qed

lemma run_with_env_in_commit:
  assumes "Run argv (Some env) out_null err_null \<in> set (new_events w (snd (commit d msg w)))"
  shows "argv = git_commit_argv msg \<and> env = env_of d w"
  using assms commit_new_events_cases [of w d msg]
  by (auto simp: write_scratch_def run_add_def run_commit_def tool_missing_report_def
        failure_report_def lock_cleanup_def split: if_splits)

text \<open>
  Claim C1. Whenever \<open>commit\<close> starts a subprocess with an environment of its own, that
  subprocess is \<open>git commit -m msg\<close>, and the environment gives \<open>GIT_AUTHOR_DATE\<close> and
  \<open>GIT_COMMITTER_DATE\<close> one and the same string \<open>t\<close>. That string has the shape
  \<open>YYYY-MM-DD HH:MM:SS\<close>, its first ten characters are \<open>str\<close> of the day the call was
  given and read back as that day, and its clock reads between 09:00:00 and 17:59:59.
\<close>

theorem commit_timestamp:
  assumes "valid_date d"
    and "Run argv (Some env) out_null err_null \<in> set (new_events w (snd (commit d msg w)))"
  shows "argv = git_commit_argv msg \<and>
         (\<exists>t. map_of env ''GIT_AUTHOR_DATE'' = Some t \<and> map_of env ''GIT_COMMITTER_DATE'' = Some t
            \<and> has_shape timestamp_shape t \<and> take 10 t = date_str d \<and> ts_date t = d
            \<and> 9 \<le> ts_hour t \<and> ts_hour t \<le> 17 \<and> ts_minute t \<le> 59 \<and> ts_second t \<le> 59)"
proof -
  from run_with_env_in_commit [OF assms(2)] have argv: "argv = git_commit_argv msg"
    and env: "env = env_of d w" by simp_all
  let ?t = "timestamp_of d w"
  note p = timestamp_props [OF assms(1), of w] and b = drawn_bounds [of w]
  from p(4) b(1,2) have h: "9 \<le> ts_hour ?t" "ts_hour ?t \<le> 17" by linarith+
  from p(5) b(4) have m: "ts_minute ?t \<le> 59" by linarith
  from p(6) b(6) have s: "ts_second ?t \<le> 59" by linarith
  from env_of_dates [of d w] p(1-3) h m s argv show ?thesis unfolding env by blast
qed

text \<open>In the calm world the commit subprocess is started, at 12:10:17 on the day given.\<close>

theorem commit_timestamp_witness:
  "valid_date (mk_date 2023 5 12) \<and>
   Run [''git'', ''commit'', ''-m'', ''m'']
       (Some [(''PATH'', ''/usr/bin''), (''GIT_COMMITTER_DATE'', ''2023-05-12 12:10:17''),
              (''GIT_AUTHOR_DATE'', ''2023-05-12 12:10:17'')]) True True
     \<in> set (new_events calm_world (snd (commit (mk_date 2023 5 12) ''m'' calm_world))) \<and>
   (\<exists>t. map_of [(''PATH'', ''/usr/bin''), (''GIT_COMMITTER_DATE'', ''2023-05-12 12:10:17''),
              (''GIT_AUTHOR_DATE'', ''2023-05-12 12:10:17'')] ''GIT_AUTHOR_DATE'' = Some t \<and>
        has_shape timestamp_shape t \<and> ts_date t = mk_date 2023 5 12 \<and> 9 \<le> ts_hour t \<and> ts_hour t \<le> 17)"
proof -
  have h1: "valid_date (mk_date 2023 5 12)" by (rule day_2023_05_12)
  have h2: "Run [''git'', ''commit'', ''-m'', ''m'']
       (Some [(''PATH'', ''/usr/bin''), (''GIT_COMMITTER_DATE'', ''2023-05-12 12:10:17''),
              (''GIT_AUTHOR_DATE'', ''2023-05-12 12:10:17'')]) True True
     \<in> set (new_events calm_world (snd (commit (mk_date 2023 5 12) ''m'' calm_world)))"
    using commit_succeeds [OF calm_answers(1-3), where msg = "''m''" and d = "mk_date 2023 5 12"]
    by (simp add: new_events_after_commit run_commit_def git_commit_argv_def calm_env)
  from commit_timestamp [OF h1 h2] h1 h2 show ?thesis by blast
qed

lemma commit_loop_step:
  assumes "fst (commit d (commit_msg i n d) w) = Inr ()"
  shows "commit_loop d n (i # rest) w = commit_loop d n rest (snd (commit d (commit_msg i n d) w))"
  using assms by (cases "commit d (commit_msg i n d) w") (auto split: sum.splits)

lemma commit_loop_stop:
  assumes "fst (commit d (commit_msg i n d) w) = Inl e"
  shows "commit_loop d n (i # rest) w = commit d (commit_msg i n d) w"
  using assms by (cases "commit d (commit_msg i n d) w") (auto split: sum.splits)

text \<open>
  Claim C8. When the write of the scratch file raises, \<open>commit\<close> returns normally, the
  only thing it has done is print the error, no subprocess has been started, and the
  loop over the day's commits goes on with the next index.
\<close>

theorem write_failure_contained:
  assumes "write_answer w = Some e"
  shows "fst (commit d msg w) = Inr () \<and>
         new_events w (snd (commit d msg w)) = [Print (''Error writing to .tmpfile: '' @ e)] \<and>
         tool_calls (new_events w (snd (commit d msg w))) = [] \<and>
         commit_loop d n (i # rest) w = commit_loop d n rest (snd (commit d (commit_msg i n d) w))"
proof -
  have a: "\<And>m. commit d m w = (Inr (), after_commit d m 4 [Print (''Error writing to .tmpfile: '' @ e)] False w)"
    by (rule commit_write_fails [OF assms])
  have "fst (commit d (commit_msg i n d) w) = Inr ()" by (simp add: a)
  from commit_loop_step [OF this] show ?thesis
    by (simp add: a new_events_after_commit tool_calls_def is_run_def)
qed

theorem write_failure_contained_witness:
  "write_answer write_fails_world = Some ''Permission denied'' \<and>
   fst (commit (mk_date 2023 5 12) ''m'' write_fails_world) = Inr () \<and>
   new_events write_fails_world (snd (commit (mk_date 2023 5 12) ''m'' write_fails_world))
     = [Print ''Error writing to .tmpfile: Permission denied'']"
proof -
  have h: "write_answer write_fails_world = Some ''Permission denied''" by (rule write_fails_answers)
  from write_failure_contained [OF h, of "mk_date 2023 5 12" "''m''"] h show ?thesis by simp
qed







text \<open>
  In the world where \<open>git commit\<close> exits with status 1, the call returns without
  having slept.
\<close>

theorem pause_counterexample:
  "commit_answer ''m'' commit_fails_world = Returned 1 \<and>
   fst (commit (mk_date 2023 5 12) ''m'' commit_fails_world) = Inr () \<and>
   new_events commit_fails_world (snd (commit (mk_date 2023 5 12) ''m'' commit_fails_world)) =
     [Write_file ''.tmpfile'' ''m\<newline>031425364758697a\<newline>'',
      Run [''git'', ''add'', ''.tmpfile''] None True True,
      Run [''git'', ''commit'', ''-m'', ''m'']
        (Some [(''PATH'', ''/usr/bin''), (''GIT_COMMITTER_DATE'', ''2023-05-12 12:10:17''),
               (''GIT_AUTHOR_DATE'', ''2023-05-12 12:10:17'')]) True True,
      Print ''Git command failed for date 2023-05-12: status 1'',
      Remove_file ''.git/index.lock'',
      Print ''Removed .git/index.lock. Attempting to proceed...'']"
proof -
  have h: "write_answer commit_fails_world = None" "add_answer commit_fails_world = Returned 0"
    "commit_answer ''m'' commit_fails_world = Returned 1" "(1::int) \<noteq> 0"
    by (simp_all add: commit_fails_answers)
  from commit_commit_fails [OF h, of "mk_date 2023 5 12"] h(3) show ?thesis
    by (simp add: new_events_after_commit write_scratch_def run_add_def run_commit_def
          failure_report_def lock_cleanup_def git_add_argv_def git_commit_argv_def lock_path_def
          commit_fails_answers day_2023_05_12)
qed

lemma sleep_in_commit:
  "(Sleep k \<in> set (new_events w (snd (commit d msg w)))) =
   (k = 10 \<and> write_answer w = None \<and> add_answer w = Returned 0 \<and> commit_answer msg w = Returned 0)"
proof (cases rule: commit_cases [where w = w and msg = msg])
  case (write_fails e)
  from commit_write_fails [OF this] write_fails show ?thesis by (simp add: new_events_after_commit)
next
  case add_missing
  from commit_add_missing [OF this] add_missing show ?thesis
    by (simp add: new_events_after_commit write_scratch_def run_add_def tool_missing_report_def)
next
  case (add_fails rc)
  from commit_add_fails [OF this] add_fails show ?thesis
    by (simp add: new_events_after_commit write_scratch_def run_add_def failure_report_def lock_cleanup_def)
next
  case commit_missing
  from commit_commit_missing [OF this] commit_missing show ?thesis
    by (simp add: new_events_after_commit write_scratch_def run_add_def run_commit_def tool_missing_report_def)
next
  case (commit_fails rc)
  from commit_commit_fails [OF this] commit_fails show ?thesis
    by (simp add: new_events_after_commit write_scratch_def run_add_def run_commit_def failure_report_def lock_cleanup_def)
next
  case succeeds
  from commit_succeeds [OF this] succeeds show ?thesis
    by (auto simp add: new_events_after_commit write_scratch_def run_add_def run_commit_def)
qed

text \<open>
  Claim C5, as amended. \<open>commit\<close> sleeps exactly when the write, \<open>git add\<close> and
  \<open>git commit\<close> have all succeeded, and then the sleep is the last thing it does
  before it returns.
\<close>

theorem pause_after_success_only:
  "(Sleep 10 \<in> set (new_events w (snd (commit d msg w)))) =
     (write_answer w = None \<and> add_answer w = Returned 0 \<and> commit_answer msg w = Returned 0) \<and>
   (write_answer w = None \<and> add_answer w = Returned 0 \<and> commit_answer msg w = Returned 0 \<longrightarrow>
      fst (commit d msg w) = Inr () \<and>
      new_events w (snd (commit d msg w)) = [write_scratch msg w, run_add, run_commit d msg w, Sleep 10])"
  using commit_succeeds [of w msg d] by (simp add: sleep_in_commit new_events_after_commit)

theorem pause_after_success_only_witness:
  "write_answer calm_world = None \<and> add_answer calm_world = Returned 0 \<and>
   commit_answer ''m'' calm_world = Returned 0 \<and>
   Sleep 10 \<in> set (new_events calm_world (snd (commit (mk_date 2023 5 12) ''m'' calm_world))) \<and>
   fst (commit (mk_date 2023 5 12) ''m'' calm_world) = Inr ()"
proof -
  have h: "write_answer calm_world = None" "add_answer calm_world = Returned 0"
    "commit_answer ''m'' calm_world = Returned 0" by (simp_all add: calm_answers)
  from pause_after_success_only [of calm_world "mk_date 2023 5 12" "''m''"] h show ?thesis by blast
qed

text \<open>
  Claim C10. A call of \<open>commit\<close> leaves the dictionary \<open>os.environ\<close> as it found it: the
  two overrides go into the copy. The store stays well-formed, so the same holds for
  every later call.
\<close>

theorem commit_keeps_environ:
  assumes "store_ok w"
  shows "store (snd (commit d msg w)) os_environ = store w os_environ \<and>
         dict_get os_environ (snd (commit d msg w)) = dict_get os_environ w \<and>
         store_ok (snd (commit d msg w))"
proof -
  from commit_shape [of d msg w] obtain r k evs c
    where "commit d msg w = (r, after_commit d msg k evs c w)" by blast
  with assms show ?thesis
    by (simp add: store_ok_def after_commit_def dict_get_def)
qed

theorem commit_keeps_environ_witness:
  "store_ok calm_world \<and>
   dict_get os_environ (snd (commit (mk_date 2023 5 12) ''m'' calm_world)) = [(''PATH'', ''/usr/bin'')]"
proof -
  have h: "store_ok calm_world" by (rule calm_answers)
  have e: "dict_get os_environ calm_world = [(''PATH'', ''/usr/bin'')]" by (rule calm_answers)
  from commit_keeps_environ [OF h, of "mk_date 2023 5 12" "''m''"] h e show ?thesis by simp
qed

section \<open>The loops\<close>

text \<open>What any number of calls of \<open>commit\<close> leave alone, and how they can end.\<close>

lemma commit_frame:
  assumes "commit d msg w = (r, w')"
  shows "r = Inr () \<or> r = Inl (SystemExit 1)"
    and "run_result w' = run_result w" and "rand_src w' = rand_src w"
    and "processed w' = processed w" and "calls w' = calls w @ [(d, msg)]"
    and "\<exists>evs. trace w' = trace w @ evs"
proof -
  from commit_shape [of d msg w] assms obtain k evs c
    where w': "w' = after_commit d msg k evs c w" and r: "r = Inr () \<or> r = Inl (SystemExit 1)"
    by auto
  show "r = Inr () \<or> r = Inl (SystemExit 1)" by (rule r)
  show "run_result w' = run_result w" "rand_src w' = rand_src w" "processed w' = processed w"
    "calls w' = calls w @ [(d, msg)]" "\<exists>evs. trace w' = trace w @ evs"
    by (simp_all add: w' after_commit_simps)
qed

lemma commit_loop_frame:
  assumes "commit_loop d n js w = (r, w')"
  shows "(r = Inr () \<or> r = Inl (SystemExit 1)) \<and> run_result w' = run_result w
         \<and> rand_src w' = rand_src w \<and> processed w' = processed w
         \<and> (\<exists>evs. trace w' = trace w @ evs)
         \<and> (\<exists>cs. calls w' = calls w @ cs \<and> length cs \<le> length js
                \<and> (r = Inr () \<longrightarrow> cs = map (\<lambda>i. (d, commit_msg i n d)) js))"
  using assms
proof (induction js arbitrary: w)
  case Nil
  then show ?case by auto
next
  case (Cons i js)
  obtain r1 w1 where c: "commit d (commit_msg i n d) w = (r1, w1)" by fastforce
  note f = commit_frame [OF c]
  show ?case
  proof (cases r1)
    case (Inl e)
    with c Cons.prems have "r = r1" "w' = w1" by simp_all
    with f Inl show ?thesis by auto
  next
    case (Inr u)
    with c Cons.prems have "commit_loop d n js w1 = (r, w')" by simp
    from Cons.IH [OF this] obtain evs cs
      where ih: "r = Inr () \<or> r = Inl (SystemExit 1)" "run_result w' = run_result w1"
        "rand_src w' = rand_src w1" "processed w' = processed w1" "trace w' = trace w1 @ evs"
        "calls w' = calls w1 @ cs" "length cs \<le> length js"
        "r = Inr () \<longrightarrow> cs = map (\<lambda>i. (d, commit_msg i n d)) js"
      by blast
    from f(6) obtain evs1 where t1: "trace w1 = trace w @ evs1" by blast
    have tr: "\<exists>evs. trace w' = trace w @ evs" using ih(5) t1 by simp
    have cl: "calls w' = calls w @ ((d, commit_msg i n d) # cs)" using ih(6) f(5) by simp
    have "\<exists>cs. calls w' = calls w @ cs \<and> length cs \<le> length (i # js)
                \<and> (r = Inr () \<longrightarrow> cs = map (\<lambda>i. (d, commit_msg i n d)) (i # js))"
      using cl ih(7,8) by (intro exI [of _ "(d, commit_msg i n d) # cs"]) simp
    with ih(1-4) f(2-4) tr show ?thesis by simp
  qed
qed


lemma day_body_value_error:
  assumes "MAX_COMMITS_PER_DAY cfg < MIN_COMMITS_PER_DAY cfg"
  shows "day_body cfg cur w = (Inl ValueError, w)"
  using assms by (simp add: day_body_def randint_def)



text \<open>The day loop.\<close>

lemma day_loop_past_end:
  assumes "\<not> date_le cur e"
  shows "day_loop cfg cur e w = (Inr (), w)"
  using assms by (subst day_loop.simps) simp

lemma day_loop_unfold:
  assumes "date_le cur e" "day_body cfg cur w = (Inr (), w1)"
  shows "day_loop cfg cur e w =
           (case date_add_day cur of Inl x \<Rightarrow> (Inl x, w1) | Inr next_date \<Rightarrow> day_loop cfg next_date e w1)"
  using assms by (subst day_loop.simps) simp

lemma day_loop_stop:
  assumes "date_le cur e" "fst (day_body cfg cur w) = Inl x"
  shows "day_loop cfg cur e w = day_body cfg cur w"
  using assms by (subst day_loop.simps) (cases "day_body cfg cur w", auto)


section \<open>Properties of the day loop\<close>









text \<open>
  Claim C9. When the start date is strictly after the end date, \<open>generate_commits\<close>
  prints its two notices and returns normally, and that is all: the world is otherwise
  as it was, so nothing was drawn, no day was processed, \<open>commit\<close> was not called,
  nothing was written and no subprocess was started.
\<close>

theorem empty_range_no_iterations:
  assumes "date_le end_date start_date" "start_date \<noteq> end_date"
  shows "generate_commits cfg start_date end_date w =
           (Inr (), w\<lparr>trace := trace w @
              [Print (''Starting commit generation from '' @ date_str start_date @ '' to ''
                      @ date_str end_date @ ''...''),
               Print ''Generation complete. Don't forget to push your changes to the remote repository!'']\<rparr>)"
proof -
  from assms have "\<not> date_le start_date end_date" by (simp add: date_le_total)
  from day_loop_past_end [OF this] show ?thesis
    by (simp add: generate_commits_def Let_def emit_def)
qed

theorem empty_range_no_iterations_witness:
  "date_le (mk_date 2023 5 12) (mk_date 2023 8 9) \<and> mk_date 2023 8 9 \<noteq> mk_date 2023 5 12 \<and>
   fst (generate_commits script_config (mk_date 2023 8 9) (mk_date 2023 5 12) calm_world) = Inr () \<and>
   processed (snd (generate_commits script_config (mk_date 2023 8 9) (mk_date 2023 5 12) calm_world)) = [] \<and>
   calls (snd (generate_commits script_config (mk_date 2023 8 9) (mk_date 2023 5 12) calm_world)) = [] \<and>
   tick (snd (generate_commits script_config (mk_date 2023 8 9) (mk_date 2023 5 12) calm_world)) = 0"
proof -
  have h: "date_le (mk_date 2023 5 12) (mk_date 2023 8 9)" "mk_date 2023 8 9 \<noteq> mk_date 2023 5 12"
    by (simp_all add: date_le_def mk_date_def)
  have c: "processed calm_world = []" "calls calm_world = []" "tick calm_world = 0"
    by (simp_all add: calm_world_def)
  from empty_range_no_iterations [OF h, of script_config calm_world] h c show ?thesis by simp
qed






section \<open>When \<open>git\<close> is missing\<close>

lemma tool_calls_rev: "(tool_calls (rev evs) = []) = (tool_calls evs = [])"
  by (simp add: tool_calls_def filter_empty_conv)

lemma tool_calls_append: "tool_calls (xs @ ys) = tool_calls xs @ tool_calls ys"
  by (simp add: tool_calls_def)

lemma stops_exit_iff:
  "stops_at_first_call w (Inl (SystemExit 1)) w' =
     (\<exists>pre x s. new_events w w' = pre @ [x, Print s] \<and> is_run x \<and> tool_calls pre = [])"
proof
  assume a: "stops_at_first_call w (Inl (SystemExit 1)) w'"
  show "\<exists>pre x s. new_events w w' = pre @ [x, Print s] \<and> is_run x \<and> tool_calls pre = []"
  proof (cases "rev (new_events w w')")
    case Nil
    with a show ?thesis by (simp add: stops_at_first_call_def)
  next
    case outer: (Cons e l)
    show ?thesis
    proof (cases e)
      case (Print s)
      show ?thesis
      proof (cases l)
        case Nil
        with a outer Print show ?thesis by (simp add: stops_at_first_call_def)
      next
        case (Cons x before)
        with a outer Print have x: "is_run x" "tool_calls before = []"
          by (simp_all add: stops_at_first_call_def)
        from outer Print Cons have "rev (rev (new_events w w')) = rev (Print s # x # before)"
          by simp
        then have "new_events w w' = rev before @ [x, Print s]" by simp
        moreover from x(2) have "tool_calls (rev before) = []" by (simp add: tool_calls_rev)
        ultimately show ?thesis using x(1) by blast
      qed
    next
      case (Write_file p c)
      with a outer show ?thesis by (simp add: stops_at_first_call_def)
    next
      case (Run argv env o1 o2)
      with a outer show ?thesis by (simp add: stops_at_first_call_def)
    next
      case (Sleep k)
      with a outer show ?thesis by (simp add: stops_at_first_call_def)
    next
      case (Remove_file p)
      with a outer show ?thesis by (simp add: stops_at_first_call_def)
    qed
  qed
next
  assume "\<exists>pre x s. new_events w w' = pre @ [x, Print s] \<and> is_run x \<and> tool_calls pre = []"
  then obtain pre x s where "new_events w w' = pre @ [x, Print s]" "is_run x" "tool_calls pre = []"
    by blast
  then show "stops_at_first_call w (Inl (SystemExit 1)) w'"
    by (simp add: stops_at_first_call_def tool_calls_rev)
qed

lemma stops_other:
  "r \<noteq> Inl (SystemExit 1) \<Longrightarrow> stops_at_first_call w r w' = (tool_calls (new_events w w') = [])"
  by (simp add: stops_at_first_call_def)

lemma new_events_trans:
  assumes "trace w1 = trace w @ evs1" "trace w2 = trace w1 @ evs2"
  shows "new_events w w1 = evs1" "new_events w1 w2 = evs2" "new_events w w2 = evs1 @ evs2"
  using assms by (simp_all add: new_events_def)

text \<open>A stretch without subprocess, followed by one that stops at its first.\<close>

lemma stops_seq:
  assumes "trace w1 = trace w @ evs1" "tool_calls evs1 = []"
    and "trace w2 = trace w1 @ evs2" "stops_at_first_call w1 r w2"
  shows "stops_at_first_call w r w2"
proof (cases "r = Inl (SystemExit 1)")
  case True
  with assms(4) obtain pre x s
    where p: "new_events w1 w2 = pre @ [x, Print s]" "is_run x" "tool_calls pre = []"
    by (auto simp: stops_exit_iff)
  from p(1) new_events_trans [OF assms(1,3)]
  have "new_events w w2 = (evs1 @ pre) @ [x, Print s]" by simp
  moreover have "tool_calls (evs1 @ pre) = []" using assms(2) p(3) by (simp add: tool_calls_append)
  ultimately show ?thesis using p(2) unfolding True stops_exit_iff by blast
next
  case False
  with assms(4) have "tool_calls (new_events w1 w2) = []" by (simp add: stops_other)
  with new_events_trans [OF assms(1,3)] assms(2) have "tool_calls (new_events w w2) = []"
    by (simp add: tool_calls_append)
  with False show ?thesis by (simp add: stops_other)
qed

lemma commit_tool_missing:
  assumes "tool_missing w" "commit d msg w = (r, w')"
  shows "stops_at_first_call w r w'"
proof (cases "write_answer w")
  case (Some e)
  from commit_write_fails [OF this, of d msg] assms(2)
  have "r = Inr ()" "new_events w w' = [Print (''Error writing to .tmpfile: '' @ e)]"
    by (auto simp: new_events_after_commit)
  then show ?thesis by (simp add: stops_other tool_calls_def is_run_def)
next
  case None
  from assms(1) have "add_answer w = Not_found" by (simp add: tool_missing_def add_answer_def)
  from commit_add_missing [OF None this, of d msg] assms(2)
  have r: "r = Inl (SystemExit 1)"
    and e: "new_events w w' = [write_scratch msg w] @ [run_add, tool_missing_report]"
    by (auto simp: new_events_after_commit)
  have "is_run run_add" "tool_calls [write_scratch msg w] = []"
    by (simp_all add: is_run_def run_add_def tool_calls_def write_scratch_def)
  with e show ?thesis unfolding r stops_exit_iff tool_missing_report_def by blast
qed

lemma tool_missing_frame: "run_result w' = run_result w \<Longrightarrow> tool_missing w' = tool_missing w"
  by (simp add: tool_missing_def)

lemma commit_loop_tool_missing:
  assumes "tool_missing w" "commit_loop d n js w = (r, w')"
  shows "stops_at_first_call w r w'"
  using assms
proof (induction js arbitrary: w)
  case Nil
  then have "r = Inr ()" "w' = w" by simp_all
  then show ?case by (simp add: stops_other new_events_def tool_calls_def)
next
  case (Cons i js)
  obtain r1 w1 where c: "commit d (commit_msg i n d) w = (r1, w1)" by fastforce
  note s1 = commit_tool_missing [OF Cons.prems(1) c]
  show ?case
  proof (cases r1)
    case (Inl e)
    with c Cons.prems(2) have "r = r1" "w' = w1" by simp_all
    with s1 show ?thesis by simp
  next
    case (Inr u)
    with c Cons.prems(2) have rest: "commit_loop d n js w1 = (r, w')" by simp
    from tool_missing_frame [OF commit_frame(2) [OF c]] Cons.prems(1) have tm: "tool_missing w1"
      by simp
    from commit_frame(6) [OF c] obtain evs1 where t1: "trace w1 = trace w @ evs1" by blast
    from commit_loop_frame [OF rest] have "\<exists>evs. trace w' = trace w1 @ evs" by (elim conjE)
    then obtain evs2 where t2: "trace w' = trace w1 @ evs2" ..
    from s1 Inr have "tool_calls (new_events w w1) = []" by (simp add: stops_other)
    with t1 have "tool_calls evs1 = []" by (simp add: new_events_def)
    from stops_seq [OF t1 this t2 Cons.IH [OF tm rest]] show ?thesis .
  qed
qed

lemma day_body_start:
  assumes "MIN_COMMITS_PER_DAY cfg \<le> MAX_COMMITS_PER_DAY cfg"
  shows "\<exists>w2 evs0. day_body cfg cur w
                      = commit_loop cur (drawn_count cfg w) (py_range (drawn_count cfg w)) w2
           \<and> trace w2 = trace w @ evs0 \<and> tool_calls evs0 = [] \<and> run_result w2 = run_result w
           \<and> write_result w2 = write_result w \<and> tick w2 = tick w + 1 \<and> calls w2 = calls w
           \<and> processed w2 = processed w @ [(cur, drawn_count cfg w)]"
proof -
  let ?n = "drawn_count cfg w"
  let ?w1 = "w\<lparr>tick := tick w + 1, processed := processed w @ [(cur, ?n)]\<rparr>"
  let ?p = "Print (''--> '' @ date_str cur @ '': Generating '' @ str_int ?n @ '' commits...'')"
  show ?thesis
  proof (cases "?n > 0")
    case True
    with assms have "day_body cfg cur w = commit_loop cur ?n (py_range ?n) (emit ?p ?w1)"
      by (simp add: day_body_def randint_def drawn_count_def Let_def)
    moreover have "trace (emit ?p ?w1) = trace w @ [?p]" "tool_calls [?p] = []"
      by (simp_all add: emit_def tool_calls_def is_run_def)
    ultimately show ?thesis by (intro exI [of _ "emit ?p ?w1"] exI [of _ "[?p]"]) (simp add: emit_def)
  next
    case False
    with assms have "day_body cfg cur w = commit_loop cur ?n (py_range ?n) ?w1"
      by (simp add: day_body_def randint_def drawn_count_def Let_def)
    then show ?thesis by (intro exI [of _ ?w1] exI [of _ "[]"]) (simp add: tool_calls_def)
  qed
qed

lemma day_body_tool_missing:
  assumes "tool_missing w" "day_body cfg cur w = (r, w')"
  shows "stops_at_first_call w r w' \<and> (\<exists>evs. trace w' = trace w @ evs) \<and> run_result w' = run_result w"
proof (cases "MIN_COMMITS_PER_DAY cfg \<le> MAX_COMMITS_PER_DAY cfg")
  case False
  then have "day_body cfg cur w = (Inl ValueError, w)" by (simp add: day_body_value_error)
  with assms(2) have "r = Inl ValueError" "w' = w" by simp_all
  then show ?thesis by (simp add: stops_other new_events_def tool_calls_def)
next
  case True
  from day_body_start [OF True, of cur w] obtain w2 evs0
    where b: "day_body cfg cur w = commit_loop cur (drawn_count cfg w) (py_range (drawn_count cfg w)) w2"
      and w2: "trace w2 = trace w @ evs0" "tool_calls evs0 = []" "run_result w2 = run_result w"
    by blast
  from b assms(2) have l: "commit_loop cur (drawn_count cfg w) (py_range (drawn_count cfg w)) w2 = (r, w')"
    by simp
  from tool_missing_frame [OF w2(3)] assms(1) have tm: "tool_missing w2" by simp
  from commit_loop_frame [OF l] have "\<exists>evs. trace w' = trace w2 @ evs" by (elim conjE)
  then obtain evs2 where t2: "trace w' = trace w2 @ evs2" ..
  from commit_loop_frame [OF l] have rr: "run_result w' = run_result w2" by (elim conjE)
  from stops_seq [OF w2(1,2) t2 commit_loop_tool_missing [OF tm l]] t2 w2(1,3) rr
  show ?thesis by simp
qed

lemma day_loop_tool_missing:
  assumes "tool_missing w" "day_loop cfg cur e w = (r, w')"
  shows "stops_at_first_call w r w' \<and> (\<exists>evs. trace w' = trace w @ evs)"
  using assms
proof (induction cfg cur e w rule: day_loop.induct)
  case (1 cfg cur e w)
  show ?case
  proof (cases "date_le cur e")
    case False
    from day_loop_past_end [OF this, of cfg w] "1.prems"(2) have "r = Inr ()" "w' = w" by simp_all
    then show ?thesis by (simp add: stops_other new_events_def tool_calls_def)
  next
    case True
    obtain r1 w1 where b: "day_body cfg cur w = (r1, w1)" by fastforce
    note db = day_body_tool_missing [OF "1.prems"(1) b]
    from db have s1: "stops_at_first_call w r1 w1" by (rule conjunct1)
    from db have rr: "run_result w1 = run_result w" by (elim conjE)
    from db have "\<exists>evs. trace w1 = trace w @ evs" by (elim conjE)
    then obtain evs1 where t1: "trace w1 = trace w @ evs1" ..
    show ?thesis
    proof (cases r1)
      case (Inl x)
      with b have "fst (day_body cfg cur w) = Inl x" by simp
      from day_loop_stop [OF True this] b "1.prems"(2) have "r = r1" "w' = w1" by simp_all
      with s1 t1 show ?thesis by simp
    next
      case (Inr u)
      then have r1: "r1 = Inr ()" by simp
      with s1 have nc: "tool_calls (new_events w w1) = []" by (simp add: stops_other)
      with t1 have nc1: "tool_calls evs1 = []" by (simp add: new_events_def)
      note unf = day_loop_unfold [OF True b [unfolded r1]]
      show ?thesis
      proof (cases "date_add_day cur")
        case (Inl x)
        then have "x = OverflowError" by (simp add: date_add_day_def split: if_splits)
        with unf Inl "1.prems"(2) have "r = Inl OverflowError" "w' = w1" by simp_all
        with nc t1 show ?thesis by (simp add: stops_other)
      next
        case (Inr nxt)
        with unf "1.prems"(2) have rest: "day_loop cfg nxt e w1 = (r, w')" by simp
        from tool_missing_frame [OF rr] "1.prems"(1) have tm: "tool_missing w1" by simp
        note ih = "1.IH" [OF True b [symmetric] r1 Inr tm rest]
        from ih have s2: "stops_at_first_call w1 r w'" by (rule conjunct1)
        from ih have "\<exists>evs. trace w' = trace w1 @ evs" by (rule conjunct2)
        then obtain evs2 where t2: "trace w' = trace w1 @ evs2" ..
        from stops_seq [OF t1 nc1 t2 s2] t1 t2 show ?thesis by simp
      qed
    qed
  qed
qed

lemma stops_same_trace:
  "trace w0 = trace w \<Longrightarrow> stops_at_first_call w0 r w' = stops_at_first_call w r w'"
  by (simp add: stops_at_first_call_def new_events_def)

lemma generate_commits_stop:
  assumes "fst (day_loop cfg s e (emit (Print (''Starting commit generation from '' @ date_str s
                  @ '' to '' @ date_str e @ ''...'')) w)) = Inl x"
  shows "generate_commits cfg s e w
         = day_loop cfg s e (emit (Print (''Starting commit generation from '' @ date_str s
                  @ '' to '' @ date_str e @ ''...'')) w)"
proof -
  let ?w0 = "emit (Print (''Starting commit generation from '' @ date_str s
                  @ '' to '' @ date_str e @ ''...'')) w"
  obtain r w1 where l: "day_loop cfg s e ?w0 = (r, w1)" by fastforce
  with assms have "r = Inl x" by simp
  with l show ?thesis by (simp add: generate_commits_def Let_def)
qed

lemma generate_commits_tool_missing:
  assumes "tool_missing w" "generate_commits cfg s e w = (r, w')"
  shows "stops_at_first_call w r w'"
proof -
  let ?p = "Print (''Starting commit generation from '' @ date_str s @ '' to '' @ date_str e @ ''...'')"
  let ?w0 = "emit ?p w"
  let ?q = "Print ''Generation complete. Don't forget to push your changes to the remote repository!''"
  have t0: "trace ?w0 = trace w @ [?p]" and c0: "tool_calls [?p] = []"
    and rr: "run_result ?w0 = run_result w"
    by (simp_all add: emit_def tool_calls_def is_run_def)
  from tool_missing_frame [OF rr] assms(1) have tm: "tool_missing ?w0" by simp
  obtain r1 w1 where l: "day_loop cfg s e ?w0 = (r1, w1)" by fastforce
  note dl = day_loop_tool_missing [OF tm l]
  from dl have s1: "stops_at_first_call ?w0 r1 w1" by (rule conjunct1)
  from dl have "\<exists>evs. trace w1 = trace ?w0 @ evs" by (rule conjunct2)
  then obtain evs1 where t1: "trace w1 = trace ?w0 @ evs1" ..
  show ?thesis
  proof (cases r1)
    case (Inl x)
    with l have "fst (day_loop cfg s e ?w0) = Inl x" by simp
    from generate_commits_stop [OF this] l assms(2) have "r = r1" "w' = w1" by simp_all
    with stops_seq [OF t0 c0 t1 s1] show ?thesis by simp
  next
    case (Inr u)
    with l assms(2) have r: "r = Inr ()" and w': "w' = emit ?q w1"
      by (simp_all add: generate_commits_def Let_def)
    from Inr s1 have "tool_calls (new_events ?w0 w1) = []" by (simp add: stops_other)
    with t1 have c1: "tool_calls evs1 = []" by (simp add: new_events_def)
    have "new_events w w' = [?p] @ evs1 @ [?q]"
      unfolding w' by (simp add: new_events_def emit_def t1 [unfolded t0])
    with c1 have "tool_calls (new_events w w') = []"
      by (simp add: tool_calls_append) (simp add: tool_calls_def is_run_def)
    with r show ?thesis by (simp add: stops_other)
  qed
qed

lemma main_repository_present:
  assumes "path_exists w (tick w) ''.git''"
  shows "main cfg w = generate_commits cfg (START_DATE cfg) (END_DATE cfg) (w\<lparr>tick := tick w + 1\<rparr>)"
  using assms by (simp add: main_def os_path_exists_def)

lemma main_bootstrap_missing:
  assumes "\<not> path_exists w (tick w) ''.git''" "run_result w (tick w + 1) git_init_argv = Not_found"
  shows "main cfg w =
           (Inl (SystemExit 1),
            w\<lparr>tick := tick w + 2,
              trace := trace w @
                [Print ''WARNING: Current folder is not a Git repository. Initializing...'',
                 Run git_init_argv None True False,
                 Print ''CRITICAL ERROR: 'git' executable not found during initialization. Ensure Git is in your PATH.'']\<rparr>)"
  using assms by (simp add: main_def os_path_exists_def subprocess_run_def emit_def Let_def)

lemma main_tool_missing:
  assumes "tool_missing w"
  shows "stops_at_first_call w (fst (main cfg w)) (snd (main cfg w))"
proof (cases "path_exists w (tick w) ''.git''")
  case True
  let ?w0 = "w\<lparr>tick := tick w + 1\<rparr>"
  have tm: "tool_missing ?w0" using assms by (simp add: tool_missing_def)
  obtain r w' where g: "generate_commits cfg (START_DATE cfg) (END_DATE cfg) ?w0 = (r, w')"
    by fastforce
  have t: "trace ?w0 = trace w" by simp
  from generate_commits_tool_missing [OF tm g] have "stops_at_first_call w r w'"
    unfolding stops_same_trace [OF t] .
  moreover from g have "main cfg w = (r, w')" by (simp only: main_repository_present [OF True])
  ultimately show ?thesis by simp
next
  case False
  from assms have "run_result w (tick w + 1) git_init_argv = Not_found" by (simp add: tool_missing_def)
  note m = main_bootstrap_missing [OF False this, of cfg]
  let ?a = "Print ''WARNING: Current folder is not a Git repository. Initializing...''"
  let ?s = "''CRITICAL ERROR: 'git' executable not found during initialization. Ensure Git is in your PATH.''"
  have ne: "new_events w (snd (main cfg w)) = [?a] @ [Run git_init_argv None True False, Print ?s]"
    unfolding m by (simp add: new_events_def)
  have ir: "is_run (Run git_init_argv None True False)" by (simp add: is_run_def)
  have tc: "tool_calls [?a] = []" by (simp add: tool_calls_def is_run_def)
  have "\<exists>pre x s. new_events w (snd (main cfg w)) = pre @ [x, Print s] \<and> is_run x \<and> tool_calls pre = []"
    using ne ir tc by blast
  then have "stops_at_first_call w (Inl (SystemExit 1)) (snd (main cfg w))"
    by (rule stops_exit_iff [THEN iffD2])
  moreover have "fst (main cfg w) = Inl (SystemExit 1)" unfolding m by simp
  ultimately show ?thesis by simp
qed

text \<open>The first commit of a day, in a world without \<open>git\<close> where writing works.\<close>

lemma first_commit_exits:
  assumes "tool_missing w" "\<forall>t. write_result w t = None"
    and "MIN_COMMITS_PER_DAY cfg \<le> MAX_COMMITS_PER_DAY cfg" "0 < drawn_count cfg w"
  shows "fst (day_body cfg cur w) = Inl (SystemExit 1)"
    and "new_calls w (snd (day_body cfg cur w)) = [(cur, commit_msg 0 (drawn_count cfg w) cur)]"
proof -
  let ?n = "drawn_count cfg w"
  from day_body_start [OF assms(3), of cur w] obtain w2 evs0
    where b: "day_body cfg cur w = commit_loop cur ?n (py_range ?n) w2"
      and w2: "run_result w2 = run_result w" "write_result w2 = write_result w" "calls w2 = calls w"
    by blast
  from assms(4) have "py_range ?n = 0 # [1..<nat ?n]" by (simp add: py_range_def upt_conv_Cons)
  then obtain rest where pr: "py_range ?n = 0 # rest" ..
  have wa: "write_answer w2 = None" using assms(2) w2(2) by (simp add: write_answer_def)
  have aa: "add_answer w2 = Not_found" using assms(1) w2(1) by (simp add: add_answer_def tool_missing_def)
  note c = commit_add_missing [OF wa aa, of cur "commit_msg 0 ?n cur"]
  then have "fst (commit cur (commit_msg 0 ?n cur) w2) = Inl (SystemExit 1)" by simp
  from commit_loop_stop [OF this, of rest] b pr
  have d: "day_body cfg cur w = commit cur (commit_msg 0 ?n cur) w2" by simp
  show "fst (day_body cfg cur w) = Inl (SystemExit 1)" by (simp add: d c)
  show "new_calls w (snd (day_body cfg cur w)) = [(cur, commit_msg 0 ?n cur)]"
    by (simp add: d c new_calls_def after_commit_simps w2(3))
qed

lemma commit_exits_when_missing:
  assumes "write_answer w = None"
    and "add_answer w = Not_found \<or> (add_answer w = Returned 0 \<and> commit_answer msg w = Not_found)"
  shows "fst (commit d msg w) = Inl (SystemExit 1)"
    and "last (new_events w (snd (commit d msg w))) = tool_missing_report"
  using assms commit_add_missing [of w d msg] commit_commit_missing [of w msg d]
  by (auto simp: new_events_after_commit)

text \<open>
  Claim C6. When no \<open>git\<close> executable is found, the process ends with status 1, at
  either call site. At the bootstrap: the repository directory is absent and
  \<open>git init\<close> is not found, and the run consists of the warning, the attempt and
  the critical message; no day is processed and \<open>commit\<close> is never called. In
  \<open>commit\<close>: \<open>git add\<close> or \<open>git commit\<close> is not found, and the last thing the call
  does is print the critical message. Such an exit leaves the loop over the commits of
  the day, the loop over the days and \<open>generate_commits\<close> at once, with the world as
  the call of \<open>commit\<close> left it. And in a world with no \<open>git\<close> at all, the whole
  program stops at its first subprocess.
\<close>

theorem missing_tool_terminates:
  "(\<not> path_exists w (tick w) ''.git'' \<and> run_result w (tick w + 1) git_init_argv = Not_found \<longrightarrow>
      fst (main cfg w) = Inl (SystemExit 1) \<and> exit_status (fst (main cfg w)) = 1 \<and>
      new_events w (snd (main cfg w)) =
        [Print ''WARNING: Current folder is not a Git repository. Initializing...'',
         Run git_init_argv None True False,
         Print ''CRITICAL ERROR: 'git' executable not found during initialization. Ensure Git is in your PATH.''] \<and>
      days_done w (snd (main cfg w)) = [] \<and> new_calls w (snd (main cfg w)) = []) \<and>
   (write_answer w = None \<and>
    (add_answer w = Not_found \<or> (add_answer w = Returned 0 \<and> commit_answer msg w = Not_found)) \<longrightarrow>
      fst (commit d msg w) = Inl (SystemExit 1) \<and> exit_status (fst (commit d msg w)) = 1 \<and>
      last (new_events w (snd (commit d msg w))) =
        Print ''CRITICAL ERROR: 'git' executable not found. Ensure Git is installed and in your PATH.'') \<and>
   (fst (commit d (commit_msg i n d) w) = Inl (SystemExit 1) \<longrightarrow>
      commit_loop d n (i # rest) w = commit d (commit_msg i n d) w) \<and>
   (date_le cur e \<and> fst (day_body cfg cur w) = Inl (SystemExit 1) \<longrightarrow>
      day_loop cfg cur e w = day_body cfg cur w) \<and>
   (fst (day_loop cfg s e (emit (Print (''Starting commit generation from '' @ date_str s
                  @ '' to '' @ date_str e @ ''...'')) w)) = Inl (SystemExit 1) \<longrightarrow>
      generate_commits cfg s e w
        = day_loop cfg s e (emit (Print (''Starting commit generation from '' @ date_str s
                  @ '' to '' @ date_str e @ ''...'')) w)) \<and>
   (tool_missing w \<longrightarrow> stops_at_first_call w (fst (main cfg w)) (snd (main cfg w)))"
proof (intro conjI impI)
  assume a: "\<not> path_exists w (tick w) ''.git'' \<and> run_result w (tick w + 1) git_init_argv = Not_found"
  then have m: "main cfg w =
           (Inl (SystemExit 1),
            w\<lparr>tick := tick w + 2,
              trace := trace w @
                [Print ''WARNING: Current folder is not a Git repository. Initializing...'',
                 Run git_init_argv None True False,
                 Print ''CRITICAL ERROR: 'git' executable not found during initialization. Ensure Git is in your PATH.'']\<rparr>)"
    using main_bootstrap_missing [of w cfg] by blast
  show "fst (main cfg w) = Inl (SystemExit 1)" unfolding m by simp
  show "exit_status (fst (main cfg w)) = 1" unfolding m by (simp add: exit_status_def)
  show "new_events w (snd (main cfg w)) =
        [Print ''WARNING: Current folder is not a Git repository. Initializing...'',
         Run git_init_argv None True False,
         Print ''CRITICAL ERROR: 'git' executable not found during initialization. Ensure Git is in your PATH.'']"
    unfolding m by (simp add: new_events_def)
  show "days_done w (snd (main cfg w)) = []" unfolding m by (simp add: days_done_def)
  show "new_calls w (snd (main cfg w)) = []" unfolding m by (simp add: new_calls_def)
next
  assume a: "write_answer w = None \<and>
    (add_answer w = Not_found \<or> (add_answer w = Returned 0 \<and> commit_answer msg w = Not_found))"
  then have wa: "write_answer w = None"
    and aa: "add_answer w = Not_found \<or> (add_answer w = Returned 0 \<and> commit_answer msg w = Not_found)"
    by blast+
  note c = commit_exits_when_missing [OF wa aa, of d]
  show "fst (commit d msg w) = Inl (SystemExit 1)" by (rule c(1))
  show "exit_status (fst (commit d msg w)) = 1" unfolding c(1) by (simp add: exit_status_def)
  show "last (new_events w (snd (commit d msg w))) =
        Print ''CRITICAL ERROR: 'git' executable not found. Ensure Git is installed and in your PATH.''"
    unfolding c(2) by (simp add: tool_missing_report_def)
next
  assume "fst (commit d (commit_msg i n d) w) = Inl (SystemExit 1)"
  then show "commit_loop d n (i # rest) w = commit d (commit_msg i n d) w" by (rule commit_loop_stop)
next
  assume "date_le cur e \<and> fst (day_body cfg cur w) = Inl (SystemExit 1)"
  then show "day_loop cfg cur e w = day_body cfg cur w" using day_loop_stop by blast
next
  assume "fst (day_loop cfg s e (emit (Print (''Starting commit generation from '' @ date_str s
                  @ '' to '' @ date_str e @ ''...'')) w)) = Inl (SystemExit 1)"
  then show "generate_commits cfg s e w
        = day_loop cfg s e (emit (Print (''Starting commit generation from '' @ date_str s
                  @ '' to '' @ date_str e @ ''...'')) w)"
    by (rule generate_commits_stop)
next
  assume "tool_missing w"
  then show "stops_at_first_call w (fst (main cfg w)) (snd (main cfg w))" by (rule main_tool_missing)
qed

lemma no_git_first_day:
  assumes "trace_of = emit ev no_git_world \<or> trace_of = no_git_world"
  shows "fst (day_body one_day_config cur trace_of) = Inl (SystemExit 1)"
proof -
  from assms have tm: "tool_missing trace_of" and wr: "\<forall>t. write_result trace_of t = None"
    by (auto simp: tool_missing_def emit_def no_git_world_def calm_world_def)
  have c: "MIN_COMMITS_PER_DAY one_day_config \<le> MAX_COMMITS_PER_DAY one_day_config"
    "0 < drawn_count one_day_config trace_of"
    by (simp_all add: one_day_config_def drawn_count_def)
  from first_commit_exits(1) [OF tm wr c] show ?thesis .
qed

theorem missing_tool_terminates_witness:
  "(\<not> path_exists bare_world (tick bare_world) ''.git'' \<and>
    run_result bare_world (tick bare_world + 1) git_init_argv = Not_found) \<and>
   fst (main one_day_config bare_world) = Inl (SystemExit 1) \<and>
   (write_answer no_git_world = None \<and> add_answer no_git_world = Not_found) \<and>
   fst (commit (mk_date 2023 5 12) (commit_msg 0 3 (mk_date 2023 5 12)) no_git_world)
     = Inl (SystemExit 1) \<and>
   commit_loop (mk_date 2023 5 12) 3 [0, 1, 2] no_git_world
     = commit (mk_date 2023 5 12) (commit_msg 0 3 (mk_date 2023 5 12)) no_git_world \<and>
   (date_le (mk_date 2023 5 12) (mk_date 2023 5 12) \<and>
    fst (day_body one_day_config (mk_date 2023 5 12) no_git_world) = Inl (SystemExit 1)) \<and>
   day_loop one_day_config (mk_date 2023 5 12) (mk_date 2023 5 12) no_git_world
     = day_body one_day_config (mk_date 2023 5 12) no_git_world \<and>
   fst (generate_commits one_day_config (mk_date 2023 5 12) (mk_date 2023 5 12) no_git_world)
     = Inl (SystemExit 1) \<and>
   tool_missing no_git_world \<and>
   stops_at_first_call no_git_world (fst (main one_day_config no_git_world))
     (snd (main one_day_config no_git_world))"
proof -
  let ?d = "mk_date 2023 5 12"
  let ?p = "Print (''Starting commit generation from '' @ date_str ?d @ '' to '' @ date_str ?d @ ''...'')"
  have h1: "\<not> path_exists bare_world (tick bare_world) ''.git'' \<and>
    run_result bare_world (tick bare_world + 1) git_init_argv = Not_found"
    using no_git_answers(2,4) by (simp add: tool_missing_def)
  have h2: "write_answer no_git_world = None \<and>
     (add_answer no_git_world = Not_found \<or>
      (add_answer no_git_world = Returned 0 \<and> commit_answer (commit_msg 0 3 ?d) no_git_world = Not_found))"
    using no_git_answers(1,5) by (simp add: tool_missing_def add_answer_def)
  have h2': "write_answer no_git_world = None \<and> add_answer no_git_world = Not_found"
    using no_git_answers(1,5) by (simp add: tool_missing_def add_answer_def)
  have h4: "date_le ?d ?d \<and> fst (day_body one_day_config ?d no_git_world) = Inl (SystemExit 1)"
    using no_git_first_day [of no_git_world] by (simp add: date_le_refl)
  have b5: "fst (day_body one_day_config ?d (emit ?p no_git_world)) = Inl (SystemExit 1)"
    using no_git_first_day [of "emit ?p no_git_world" ?p] by simp
  from day_loop_stop [OF date_le_refl b5] b5
  have h5: "fst (day_loop one_day_config ?d ?d (emit ?p no_git_world)) = Inl (SystemExit 1)" by simp
  note h6 = no_git_answers(1)
  note b = missing_tool_terminates [where w = bare_world and cfg = one_day_config]
  note g = missing_tool_terminates [where w = no_git_world and cfg = one_day_config and d = ?d
      and msg = "commit_msg 0 3 ?d" and i = 0 and n = 3 and rest = "[1, 2]" and cur = ?d
      and e = ?d and s = ?d]
  from b h1 have c1: "fst (main one_day_config bare_world) = Inl (SystemExit 1)" by blast
  from g h2 have c2: "fst (commit ?d (commit_msg 0 3 ?d) no_git_world) = Inl (SystemExit 1)" by blast
  from g c2 have c3: "commit_loop ?d 3 [0, 1, 2] no_git_world = commit ?d (commit_msg 0 3 ?d) no_git_world"
    by blast
  from g h4 have c4: "day_loop one_day_config ?d ?d no_git_world = day_body one_day_config ?d no_git_world"
    by blast
  from g h5 have "generate_commits one_day_config ?d ?d no_git_world
        = day_loop one_day_config ?d ?d (emit ?p no_git_world)" by blast
  with h5 have c5: "fst (generate_commits one_day_config ?d ?d no_git_world) = Inl (SystemExit 1)"
    by simp
  from g h6 have c6: "stops_at_first_call no_git_world (fst (main one_day_config no_git_world))
     (snd (main one_day_config no_git_world))" by blast
  from h1 c1 h2' c2 c3 h4 c4 c5 h6 c6 show ?thesis by (intro conjI) blast+
qed

end
